theory Spec2Isabelle
  imports Main "HOL-Library.Char_ord" "HOL-Library.List_Lexorder"
begin

section \<open>Zero-downtime migration manager (src/db/migration\_manager.py)\<close>

text \<open>
  A shallow embedding of \<^verbatim>\<open>ZeroDowntimeMigrationManager\<close>. The manager talks to three
  external systems: a PostgreSQL database (through psycopg2), a Redis store and the
  directory of migration scripts. Each of them is a component of an explicit world state
  that every method takes and returns; every exception the code can raise is a value
  \<open>Inl e\<close> of the result. What the external systems compute and the manager only passes
  on (the meaning of a migration's SQL text, the JSON parser, SHA-256, the wall clock)
  is a field of an environment record \<open>env\<close>, so that every theorem holds for each
  behaviour of those systems.

  Strings are \<open>char list\<close>s; the text helpers below treat the ASCII range as Python
  does and leave every other character alone. The \<open>duration\<close> field of
  \<^verbatim>\<open>MigrationResult\<close> (a difference of two \<^verbatim>\<open>time.time()\<close> floats) is left out.
\<close>

subsection \<open>Python string methods used by the manager\<close>

definition is_space :: "char \<Rightarrow> bool" where
  \<comment> \<open>\<^verbatim>\<open>str.isspace\<close> on the ASCII range\<close>
  "is_space c = (c \<in> set [CHR '' '', CHR 0x09, CHR 0x0A, CHR 0x0B, CHR 0x0C, CHR 0x0D,
                            CHR 0x1C, CHR 0x1D, CHR 0x1E, CHR 0x1F])"

definition strip :: "string \<Rightarrow> string" where
  \<comment> \<open>\<^verbatim>\<open>s.strip()\<close>\<close>
  "strip s = rev (dropWhile is_space (rev (dropWhile is_space s)))"

definition strip_chars :: "char \<Rightarrow> string \<Rightarrow> string" where
  \<comment> \<open>\<^verbatim>\<open>s.strip(c)\<close> for a single character\<close>
  "strip_chars c s = rev (dropWhile (\<lambda>x. x = c) (rev (dropWhile (\<lambda>x. x = c) s)))"

definition startswith :: "string \<Rightarrow> string \<Rightarrow> bool" where
  \<comment> \<open>\<^verbatim>\<open>s.startswith(p)\<close>\<close>
  "startswith s p = (take (length p) s = p)"

definition endswith :: "string \<Rightarrow> string \<Rightarrow> bool" where
  "endswith s p = (length p \<le> length s \<and> drop (length s - length p) s = p)"

fun contains :: "string \<Rightarrow> string \<Rightarrow> bool" where
  \<comment> \<open>\<^verbatim>\<open>sub in s\<close>, written \<open>contains s sub\<close>\<close>
  "contains [] sub = (sub = [])"
| "contains (c # cs) sub = (startswith (c # cs) sub \<or> contains cs sub)"

fun replace :: "string \<Rightarrow> string \<Rightarrow> string \<Rightarrow> string" where
  \<comment> \<open>\<^verbatim>\<open>s.replace(old, new)\<close> for a non-empty \<open>old\<close>: leftmost matches, not overlapping\<close>
  "replace [] old new = []"
| "replace (c # cs) old new =
     (if old \<noteq> [] \<and> startswith (c # cs) old
      then new @ replace (drop (length old - 1) cs) old new
      else c # replace cs old new)"

fun split :: "string \<Rightarrow> string \<Rightarrow> string list" where
  \<comment> \<open>\<^verbatim>\<open>s.split(sep)\<close> for a non-empty \<open>sep\<close>: never an empty list\<close>
  "split [] sep = [[]]"
| "split (c # cs) sep =
     (if sep \<noteq> [] \<and> startswith (c # cs) sep
      then [] # split (drop (length sep - 1) cs) sep
      else (case split cs sep of
              [] \<Rightarrow> [[c]]
            | p # ps \<Rightarrow> (c # p) # ps))"

fun split_whitespace :: "string \<Rightarrow> string \<Rightarrow> string list" where
  \<comment> \<open>\<^verbatim>\<open>s.split()\<close>: the maximal runs of non-space characters; the first argument
      is the run being read, reversed\<close>
  "split_whitespace acc [] = (if acc = [] then [] else [rev acc])"
| "split_whitespace acc (c # cs) =
     (if is_space c
      then (if acc = [] then split_whitespace [] cs else rev acc # split_whitespace [] cs)
      else split_whitespace (c # acc) cs)"

definition upper_char :: "char \<Rightarrow> char" where
  "upper_char c = (if CHR ''a'' \<le> c \<and> c \<le> CHR ''z''
                   then char_of (of_char c - (32::nat)) else c)"

definition upper :: "string \<Rightarrow> string" where
  \<comment> \<open>\<^verbatim>\<open>s.upper()\<close>\<close>
  "upper s = map upper_char s"

definition str_option :: "string option \<Rightarrow> string" where
  \<comment> \<open>how an f-string prints an optional string\<close>
  "str_option v = (case v of None \<Rightarrow> ''None'' | Some s \<Rightarrow> s)"

subsection \<open>Data model\<close>

record Migration =
  mig_id :: string
  name :: string
  version :: string
  sql_content :: string
  rollback_sql :: "string option"
  is_breaking :: bool
  requires_maintenance :: bool
  estimated_duration :: int
  dependencies :: "string list"

record MigrationResult =
  migration_id :: string
  success :: bool
  error_message :: "string option"
  affected_rows :: int
  rollback_executed :: bool

text \<open>
  A row of \<^verbatim>\<open>schema_migrations\<close>, keyed by the migration id: the columns that
  \<^verbatim>\<open>_record_migration\<close> inserts. The columns \<^verbatim>\<open>applied_at\<close> and
  \<^verbatim>\<open>duration_seconds\<close> are filled in by the server's defaults and no method reads them
  but the status report.
\<close>

record ledger_row =
  row_name :: string
  row_version :: string
  row_checksum :: string
  row_rollback_sql :: "string option"
  row_is_breaking :: bool
  row_metadata :: "int \<times> string list"

text \<open>
  The exceptions of the code, each with the text \<^verbatim>\<open>str(e)\<close> gives: the
  \<^verbatim>\<open>ValueError\<close>s and plain \<^verbatim>\<open>Exception\<close>s the manager raises itself, the errors
  psycopg2 raises for a statement the server rejects, and whatever reading or parsing a
  migration file raises.
\<close>

datatype error =
    ValueError string
  | Exception string
  | DatabaseError string
  | TypeError string
  | OSError string
  | IndexError string

fun str_error :: "error \<Rightarrow> string" where
  "str_error (ValueError s) = s"
| "str_error (Exception s) = s"
| "str_error (DatabaseError s) = s"
| "str_error (TypeError s) = s"
| "str_error (OSError s) = s"
| "str_error (IndexError s) = s"

text \<open>
  The keys of a \<^verbatim>\<open>-- META:\<close> object that \<^verbatim>\<open>_parse_migration_file\<close> reads, each
  absent or present.
\<close>

record metadata =
  meta_name :: "string option"
  meta_version :: "string option"
  meta_is_breaking :: "bool option"
  meta_requires_maintenance :: "bool option"
  meta_estimated_duration :: "int option"
  meta_dependencies :: "string list option"

text \<open>
  What \<^verbatim>\<open>metadata.update(json.loads(text))\<close> does with a text: the text is a JSON object
  (the dictionary is updated with it), the text is no JSON (\<^verbatim>\<open>JSONDecodeError\<close>), or
  the text is JSON that \<^verbatim>\<open>dict.update\<close> refuses (a number, say: a \<^verbatim>\<open>TypeError\<close>,
  which \<^verbatim>\<open>_extract_migration_metadata\<close> does not catch).
\<close>

datatype json_result =
    Json_Object metadata
  | JSONDecodeError
  | Update_Raises error

datatype ledger_stmt =
    Insert_Row string ledger_row
  | Delete_Row string

datatype level = INFO | WARNING | ERROR

text \<open>One constructor for each \<^verbatim>\<open>logger\<close> call of the module, with the values it prints.\<close>

datatype log_msg =
    Lock_Acquired string
  | Lock_Released string
  | Directory_Missing
  | Load_Failed string string
  | Missing_Dependencies string "string list"
  | Executing_Online string
  | Online_Completed string
  | Online_Failed string string
  | Executing_Shadow string
  | Shadow_Completed string
  | Shadow_Failed string string
  | Executing_Dual_Write string
  | Executing_Maintenance string
  | No_Pending
  | Found_Pending nat
  | Dry_Run
  | Would_Apply string string
  | Applying string string
  | Migration_Failed string
  | Migration_Completed string
  | Rolling_Back string
  | Rolled_Back string
  | Rollback_Failed string string

datatype db_event =
    Connect
  | Execute string
  | Select_Applied
  | Select_Rollback_Sql string
  | Create_Ledger
  | Insert_Ledger string
  | Delete_Ledger string
  | Commit
  | Rollback

datatype redis_event =
    SetNX string string
  | Set string string
  | Get string
  | HSet string
  | HGetAll string
  | Delete string

datatype event =
    Log level log_msg
  | Db db_event
  | Redis redis_event

text \<open>
  The database: the ledger table (\<open>None\<close> while the table does not exist) and everything
  else the server holds, which only the SQL of the migrations reads and writes.
\<close>

record 'd database =
  ledger :: "(string \<rightharpoonup> ledger_row) option"
  data :: 'd

text \<open>
  The world: the committed database \<open>db\<close>; the view \<open>tx\<close> of the connection that is
  open, with the statements executed and not yet committed; the two kinds of Redis
  value the manager uses; the number of times the clock was read; the directory of
  migration scripts (\<open>None\<close> when it does not exist), each file with its name and what
  \<^verbatim>\<open>read_text\<close> gives; and, in order, every effect so far.
\<close>

record 'd world =
  db :: "'d database"
  tx :: "'d database"
  redis_strings :: "string \<rightharpoonup> string"
  redis_hashes :: "string \<rightharpoonup> (string \<rightharpoonup> string)"
  ticks :: nat
  migrations_dir :: "(string \<times> (error + string)) list option"
  trace :: "event list"

text \<open>
  The environment: \<open>run_sql\<close> is the server executing one SQL text of a migration on
  the data (an error text, or the new data and the row count); \<open>ledger_fault\<close> tells
  whether the server rejects a ledger statement for a reason the model does not hold
  (a value too long for its column, a lost connection); \<open>json_update\<close>, \<open>sha256\<close> and
  \<open>isoformat_now\<close> are the library calls.
\<close>

record 'd env =
  run_sql :: "string \<Rightarrow> 'd \<Rightarrow> string + ('d \<times> int)"
  ledger_fault :: "ledger_stmt \<Rightarrow> string option"
  json_update :: "string \<Rightarrow> json_result"
  sha256 :: "string \<Rightarrow> string"
  isoformat_now :: "nat \<Rightarrow> string"

subsection \<open>Effects\<close>

definition emit :: "event \<Rightarrow> 'd world \<Rightarrow> 'd world" where
  "emit e st = st\<lparr>trace := trace st @ [e]\<rparr>"

definition logger :: "level \<Rightarrow> log_msg \<Rightarrow> 'd world \<Rightarrow> 'd world" where
  "logger l m st = emit (Log l m) st"

definition datetime_now :: "'d env \<Rightarrow> 'd world \<Rightarrow> string \<times> 'd world" where
  \<comment> \<open>\<^verbatim>\<open>datetime.now().isoformat()\<close>\<close>
  "datetime_now env st = (isoformat_now env (ticks st), st\<lparr>ticks := Suc (ticks st)\<rparr>)"

definition key_exists :: "string \<Rightarrow> 'd world \<Rightarrow> bool" where
  "key_exists k st = (redis_strings st k \<noteq> None \<or> redis_hashes st k \<noteq> None)"

definition redis_set_nx :: "string \<Rightarrow> string \<Rightarrow> 'd world \<Rightarrow> bool \<times> 'd world" where
  \<comment> \<open>\<^verbatim>\<open>redis_client.set(k, v, ex=..., nx=True)\<close>: the expiry is not part of the state;
      a key that expires is a key another actor deletes\<close>
  "redis_set_nx k v st =
     (if key_exists k st then (False, emit (Redis (SetNX k v)) st)
      else (True, emit (Redis (SetNX k v))
                    (st\<lparr>redis_strings := (redis_strings st)(k \<mapsto> v)\<rparr>)))"

definition redis_set :: "string \<Rightarrow> string \<Rightarrow> 'd world \<Rightarrow> 'd world" where
  "redis_set k v st =
     emit (Redis (Set k v))
       (st\<lparr>redis_strings := (redis_strings st)(k \<mapsto> v),
           redis_hashes := (redis_hashes st)(k := None)\<rparr>)"

definition redis_get :: "string \<Rightarrow> 'd world \<Rightarrow> string option \<times> 'd world" where
  "redis_get k st = (redis_strings st k, emit (Redis (Get k)) st)"

definition redis_delete :: "string \<Rightarrow> 'd world \<Rightarrow> 'd world" where
  "redis_delete k st =
     emit (Redis (Delete k))
       (st\<lparr>redis_strings := (redis_strings st)(k := None),
           redis_hashes := (redis_hashes st)(k := None)\<rparr>)"

definition redis_hset :: "string \<Rightarrow> (string \<times> string) list \<Rightarrow> 'd world \<Rightarrow> 'd world" where
  "redis_hset k mapping st =
     emit (Redis (HSet k))
       (st\<lparr>redis_hashes := (redis_hashes st)
             (k \<mapsto> (case redis_hashes st k of None \<Rightarrow> map_of mapping
                      | Some h \<Rightarrow> h ++ map_of mapping))\<rparr>)"

definition get_db_connection :: "'d world \<Rightarrow> 'd world" where
  \<comment> \<open>a new connection sees the committed database\<close>
  "get_db_connection st = emit (Db Connect) (st\<lparr>tx := db st\<rparr>)"

definition conn_commit :: "'d world \<Rightarrow> 'd world" where
  "conn_commit st = emit (Db Commit) (st\<lparr>db := tx st\<rparr>)"

definition conn_rollback :: "'d world \<Rightarrow> 'd world" where
  "conn_rollback st = emit (Db Rollback) (st\<lparr>tx := db st\<rparr>)"

definition with_connection ::
  "('d world \<Rightarrow> (error + 'a) \<times> 'd world) \<Rightarrow> 'd world \<Rightarrow> (error + 'a) \<times> 'd world" where
  \<comment> \<open>\<^verbatim>\<open>with self.get_db_connection() as conn: with conn.cursor() as cursor: body\<close>:
      psycopg2 commits when the block ends normally and rolls back when it raises\<close>
  "with_connection body st =
     (case body (get_db_connection st) of
        (Inl e, st') \<Rightarrow> (Inl e, conn_rollback st')
      | (Inr x, st') \<Rightarrow> (Inr x, conn_commit st'))"

definition and_then ::
  "('s \<Rightarrow> (error + 'a) \<times> 's) \<Rightarrow> ('a \<Rightarrow> 's \<Rightarrow> (error + 'b) \<times> 's) \<Rightarrow> 's \<Rightarrow> (error + 'b) \<times> 's" where
  \<comment> \<open>one statement after another: an exception of the first skips the second\<close>
  "and_then f g st = (case f st of (Inl e, st') \<Rightarrow> (Inl e, st') | (Inr x, st') \<Rightarrow> g x st')"

definition cursor_execute :: "'d env \<Rightarrow> string \<Rightarrow> 'd world \<Rightarrow> (error + int) \<times> 'd world" where
  \<comment> \<open>\<^verbatim>\<open>cursor.execute(sql)\<close> for the SQL of a migration; the result is \<^verbatim>\<open>cursor.rowcount\<close>.
      \<^verbatim>\<open>BEGIN\<close> inside the connection's transaction changes nothing, \<^verbatim>\<open>COMMIT\<close> commits it.\<close>
  "cursor_execute env sql st =
     (let st1 = emit (Db (Execute sql)) st in
      if sql = ''BEGIN'' then (Inr (- 1), st1)
      else if sql = ''COMMIT'' then (Inr (- 1), st1\<lparr>db := tx st1\<rparr>)
      else (case run_sql env sql (data (tx st1)) of
              Inl e \<Rightarrow> (Inl (DatabaseError e), st1)
            | Inr (d, n) \<Rightarrow> (Inr n, st1\<lparr>tx := (tx st1)\<lparr>data := d\<rparr>\<rparr>)))"

definition undefined_table :: error where
  "undefined_table = DatabaseError ''relation \"schema_migrations\" does not exist''"

subsection \<open>The lock\<close>

definition lock_key :: string where "lock_key = ''spr:migrations:lock''"
definition status_key :: string where "status_key = ''spr:migrations:status''"

definition lock_finally :: "bool \<Rightarrow> string \<Rightarrow> string \<Rightarrow> 'd world \<Rightarrow> 'd world" where
  \<comment> \<open>the \<^verbatim>\<open>finally\<close> block of \<^verbatim>\<open>migration_lock\<close>\<close>
  "lock_finally lock_acquired lock_value operation st =
     (if lock_acquired then
        (case redis_get lock_key st of
           (current_value, st1) \<Rightarrow>
             if current_value = Some lock_value
             then logger INFO (Lock_Released operation) (redis_delete lock_key st1)
             else st1)
      else st)"

definition migration_lock ::
  "'d env \<Rightarrow> string \<Rightarrow> ('d world \<Rightarrow> (error + 'a) \<times> 'd world) \<Rightarrow> 'd world
   \<Rightarrow> (error + 'a) \<times> 'd world" where
  \<comment> \<open>\<^verbatim>\<open>async with self.migration_lock(operation): body\<close>\<close>
  "migration_lock env operation body st =
     (case datetime_now env st of
        (now, st1) \<Rightarrow>
          let lock_value = operation @ '':'' @ now in
          (case redis_set_nx lock_key lock_value st1 of
             (True, st2) \<Rightarrow>
               (case body (logger INFO (Lock_Acquired operation) st2) of
                  (r, st3) \<Rightarrow> (r, lock_finally True lock_value operation st3))
           | (False, st2) \<Rightarrow>
               (case redis_get lock_key st2 of
                  (current_lock, st3) \<Rightarrow>
                    (Inl (Exception (''Migration lock is held by: '' @ str_option current_lock)),
                     lock_finally False lock_value operation st3))))"

subsection \<open>Loading the migration files\<close>

definition metadata_empty :: metadata where
  "metadata_empty = \<lparr>meta_name = None, meta_version = None, meta_is_breaking = None,
     meta_requires_maintenance = None, meta_estimated_duration = None,
     meta_dependencies = None\<rparr>"

definition override :: "'a option \<Rightarrow> 'a option \<Rightarrow> 'a option" where
  "override old new = (case new of None \<Rightarrow> old | Some v \<Rightarrow> Some v)"

definition metadata_update :: "metadata \<Rightarrow> metadata \<Rightarrow> metadata" where
  \<comment> \<open>\<^verbatim>\<open>metadata.update(d)\<close>: the keys of \<open>d\<close> replace those of \<open>metadata\<close>\<close>
  "metadata_update md d =
     \<lparr>meta_name = override (meta_name md) (meta_name d),
      meta_version = override (meta_version md) (meta_version d),
      meta_is_breaking = override (meta_is_breaking md) (meta_is_breaking d),
      meta_requires_maintenance =
        override (meta_requires_maintenance md) (meta_requires_maintenance d),
      meta_estimated_duration =
        override (meta_estimated_duration md) (meta_estimated_duration d),
      meta_dependencies = override (meta_dependencies md) (meta_dependencies d)\<rparr>"

fun extract_lines :: "'d env \<Rightarrow> string list \<Rightarrow> metadata \<Rightarrow> error + metadata" where
  \<comment> \<open>the loop of \<^verbatim>\<open>_extract_migration_metadata\<close> over the lines of the file\<close>
  "extract_lines env [] md = Inr md"
| "extract_lines env (line # ls) md =
     (if startswith (strip line) ''-- META:'' then
        (case json_update env (strip (replace line ''-- META:'' [])) of
           Json_Object d \<Rightarrow> extract_lines env ls (metadata_update md d)
         | JSONDecodeError \<Rightarrow> extract_lines env ls md
         | Update_Raises e \<Rightarrow> Inl e)
      else extract_lines env ls md)"

definition extract_migration_metadata :: "'d env \<Rightarrow> string \<Rightarrow> error + metadata" where
  "extract_migration_metadata env content =
     extract_lines env (split content [CHR 0x0A]) metadata_empty"

definition rfind :: "string \<Rightarrow> char \<Rightarrow> int" where
  \<comment> \<open>\<^verbatim>\<open>s.rfind(c)\<close>\<close>
  "rfind s c = (if c \<in> set s
                then int (length s) - 1 - int (length (takeWhile (\<lambda>x. x \<noteq> c) (rev s)))
                else - 1)"

definition stem :: "string \<Rightarrow> string" where
  \<comment> \<open>\<^verbatim>\<open>Path.stem\<close> of a file name: the name without its last suffix\<close>
  "stem fname =
     (let i = rfind fname CHR ''.'' in
      if 0 < i \<and> i < int (length fname) - 1 then take (nat i) fname else fname)"

definition get_or :: "'a option \<Rightarrow> 'a \<Rightarrow> 'a" where
  \<comment> \<open>\<^verbatim>\<open>metadata.get(key, default)\<close>\<close>
  "get_or v d = (case v of None \<Rightarrow> d | Some x \<Rightarrow> x)"

definition parse_migration_file ::
  "'d env \<Rightarrow> string \<times> (error + string) \<Rightarrow> error + Migration" where
  "parse_migration_file env file =
     (case snd file of
        Inl e \<Rightarrow> Inl e
      | Inr content \<Rightarrow>
          (case extract_migration_metadata env content of
             Inl e \<Rightarrow> Inl e
           | Inr md \<Rightarrow>
               (let mid = stem (fst file) in
                case split content ''-- ROLLBACK:'' of
                  [] \<Rightarrow> Inl (IndexError ''list index out of range'')
                | main # rest \<Rightarrow>
                    Inr \<lparr>mig_id = mid,
                         name = get_or (meta_name md) mid,
                         version = get_or (meta_version md) ''1.0.0'',
                         sql_content = strip main,
                         rollback_sql = (case rest of [] \<Rightarrow> None | r # _ \<Rightarrow> Some (strip r)),
                         is_breaking = get_or (meta_is_breaking md) False,
                         requires_maintenance = get_or (meta_requires_maintenance md) False,
                         estimated_duration = get_or (meta_estimated_duration md) 0,
                         dependencies = get_or (meta_dependencies md) []\<rparr>)))"

fun load_files ::
  "'d env \<Rightarrow> (string \<times> (error + string)) list \<Rightarrow> Migration list \<Rightarrow> 'd world
   \<Rightarrow> Migration list \<times> 'd world" where
  \<comment> \<open>the loop of \<^verbatim>\<open>load_migrations\<close>\<close>
  "load_files env [] migrations st = (migrations, st)"
| "load_files env (f # fs) migrations st =
     (case parse_migration_file env f of
        Inr migration \<Rightarrow> load_files env fs (migrations @ [migration]) st
      | Inl e \<Rightarrow>
          load_files env fs migrations
            (logger ERROR (Load_Failed (fst f) (str_error e)) st))"

definition glob_sql :: "(string \<times> 'a) list \<Rightarrow> (string \<times> 'a) list" where
  \<comment> \<open>\<^verbatim>\<open>sorted(self.migrations_dir.glob("*.sql"))\<close>\<close>
  "glob_sql entries = sort_key fst (filter (\<lambda>f. endswith (fst f) ''.sql'') entries)"

definition load_migrations :: "'d env \<Rightarrow> 'd world \<Rightarrow> Migration list \<times> 'd world" where
  "load_migrations env st =
     (case migrations_dir st of
        None \<Rightarrow> ([], logger WARNING Directory_Missing st)
      | Some entries \<Rightarrow> load_files env (glob_sql entries) [] st)"

subsection \<open>The ledger and the pending migrations\<close>

definition ok :: "'a \<Rightarrow> 's \<Rightarrow> (error + 'a) \<times> 's" where
  "ok x st = (Inr x, st)"

definition raise :: "error \<Rightarrow> 's \<Rightarrow> (error + 'a) \<times> 's" where
  "raise e st = (Inl e, st)"

definition effect :: "('s \<Rightarrow> 's) \<Rightarrow> 's \<Rightarrow> (error + unit) \<times> 's" where
  \<comment> \<open>a statement that cannot raise\<close>
  "effect f st = (Inr (), f st)"

definition ensure_migration_table :: "'d world \<Rightarrow> 'd world" where
  \<comment> \<open>\<^verbatim>\<open>CREATE TABLE IF NOT EXISTS\<close>, the two indexes, \<^verbatim>\<open>conn.commit()\<close>\<close>
  "ensure_migration_table st =
     snd (with_connection
            (effect (\<lambda>s. conn_commit
               (emit (Db Create_Ledger)
                  (s\<lparr>tx := (tx s)\<lparr>ledger :=
                        Some (case ledger (tx s) of None \<Rightarrow> Map.empty | Some l \<Rightarrow> l)\<rparr>\<rparr>))))
            st)"

definition select_applied :: "'d world \<Rightarrow> (error + (string \<rightharpoonup> ledger_row)) \<times> 'd world" where
  \<comment> \<open>the \<^verbatim>\<open>SELECT\<close> of \<^verbatim>\<open>get_applied_migrations\<close>, as a dictionary keyed by id\<close>
  "select_applied st =
     (case ledger (tx st) of
        None \<Rightarrow> (Inl undefined_table, emit (Db Select_Applied) st)
      | Some l \<Rightarrow> (Inr l, emit (Db Select_Applied) st))"

definition get_applied_migrations ::
  "'d world \<Rightarrow> (error + (string \<rightharpoonup> ledger_row)) \<times> 'd world" where
  "get_applied_migrations st = with_connection select_applied st"

fun pending_loop ::
  "(string \<rightharpoonup> ledger_row) \<Rightarrow> Migration list \<Rightarrow> Migration list \<Rightarrow> 'd world
   \<Rightarrow> Migration list \<times> 'd world" where
  \<comment> \<open>the loop of \<^verbatim>\<open>get_pending_migrations\<close>\<close>
  "pending_loop applied [] pending st = (pending, st)"
| "pending_loop applied (migration # ms) pending st =
     (if applied (mig_id migration) = None then
        (let missing_deps = filter (\<lambda>dep. applied dep = None) (dependencies migration) in
         if missing_deps \<noteq> [] then
           pending_loop applied ms pending
             (logger WARNING (Missing_Dependencies (mig_id migration) missing_deps) st)
         else pending_loop applied ms (pending @ [migration]) st)
      else pending_loop applied ms pending st)"

definition get_pending_migrations ::
  "'d env \<Rightarrow> 'd world \<Rightarrow> (error + Migration list) \<times> 'd world" where
  "get_pending_migrations env st =
     (case load_migrations env st of
        (all_migrations, st1) \<Rightarrow>
          (case get_applied_migrations st1 of
             (Inl e, st2) \<Rightarrow> (Inl e, st2)
           | (Inr applied_migrations, st2) \<Rightarrow>
               (case pending_loop applied_migrations all_migrations [] st2 of
                  (pending, st3) \<Rightarrow> (Inr pending, st3))))"

definition calculate_migration_checksum :: "'d env \<Rightarrow> Migration \<Rightarrow> string" where
  "calculate_migration_checksum env migration =
     sha256 env (sql_content migration @ get_or (rollback_sql migration) [])"

definition ledger_row_of :: "'d env \<Rightarrow> Migration \<Rightarrow> ledger_row" where
  \<comment> \<open>the values of the \<^verbatim>\<open>INSERT\<close> of \<^verbatim>\<open>_record_migration\<close>\<close>
  "ledger_row_of env migration =
     \<lparr>row_name = name migration,
      row_version = version migration,
      row_checksum = calculate_migration_checksum env migration,
      row_rollback_sql = rollback_sql migration,
      row_is_breaking = is_breaking migration,
      row_metadata = (estimated_duration migration, dependencies migration)\<rparr>"

definition record_migration :: "'d env \<Rightarrow> Migration \<Rightarrow> 'd world \<Rightarrow> (error + unit) \<times> 'd world" where
  \<comment> \<open>the server refuses the row when the table is missing, when the id is already a key
      (\<^verbatim>\<open>id VARCHAR(255) PRIMARY KEY\<close>), or for a fault of its own\<close>
  "record_migration env migration st =
     (let st1 = emit (Db (Insert_Ledger (mig_id migration))) st;
          row = ledger_row_of env migration in
      case ledger (tx st1) of
        None \<Rightarrow> (Inl undefined_table, st1)
      | Some l \<Rightarrow>
          if l (mig_id migration) \<noteq> None then
            (Inl (DatabaseError
               ''duplicate key value violates unique constraint \"schema_migrations_pkey\"''),
             st1)
          else (case ledger_fault env (Insert_Row (mig_id migration) row) of
                  Some e \<Rightarrow> (Inl (DatabaseError e), st1)
                | None \<Rightarrow>
                    (Inr (),
                     st1\<lparr>tx := (tx st1)\<lparr>ledger := Some (l(mig_id migration \<mapsto> row))\<rparr>\<rparr>)))"

definition select_rollback_sql ::
  "string \<Rightarrow> 'd world \<Rightarrow> (error + string option option) \<times> 'd world" where
  \<comment> \<open>\<^verbatim>\<open>SELECT rollback_sql FROM schema_migrations WHERE id = %s\<close> and \<^verbatim>\<open>fetchone()\<close>:
      \<open>None\<close> for no row, else the column, itself \<open>None\<close> for \<^verbatim>\<open>NULL\<close>\<close>
  "select_rollback_sql mid st =
     (let st1 = emit (Db (Select_Rollback_Sql mid)) st in
      case ledger (tx st1) of
        None \<Rightarrow> (Inl undefined_table, st1)
      | Some l \<Rightarrow> (Inr (map_option row_rollback_sql (l mid)), st1))"

definition delete_migration :: "'d env \<Rightarrow> string \<Rightarrow> 'd world \<Rightarrow> (error + unit) \<times> 'd world" where
  \<comment> \<open>\<^verbatim>\<open>DELETE FROM schema_migrations WHERE id = %s\<close>\<close>
  "delete_migration env mid st =
     (let st1 = emit (Db (Delete_Ledger mid)) st in
      case ledger (tx st1) of
        None \<Rightarrow> (Inl undefined_table, st1)
      | Some l \<Rightarrow>
          (case ledger_fault env (Delete_Row mid) of
             Some e \<Rightarrow> (Inl (DatabaseError e), st1)
           | None \<Rightarrow>
               (Inr (), st1\<lparr>tx := (tx st1)\<lparr>ledger := Some (l(mid := None))\<rparr>\<rparr>)))"

subsection \<open>The four strategies\<close>

definition succeeded :: "Migration \<Rightarrow> int \<Rightarrow> MigrationResult" where
  "succeeded migration n =
     \<lparr>migration_id = mig_id migration, success = True, error_message = None,
      affected_rows = n, rollback_executed = False\<rparr>"

definition failed :: "Migration \<Rightarrow> error \<Rightarrow> MigrationResult" where
  "failed migration e =
     \<lparr>migration_id = mig_id migration, success = False,
      error_message = Some (str_error e), affected_rows = 0, rollback_executed = False\<rparr>"

definition execute_chunked_operation ::
  "'d env \<Rightarrow> string \<Rightarrow> 'd world \<Rightarrow> (error + int) \<times> 'd world" where
  "execute_chunked_operation env sql st = cursor_execute env sql st"

definition online_body :: "'d env \<Rightarrow> Migration \<Rightarrow> 'd world \<Rightarrow> (error + int) \<times> 'd world" where
  \<comment> \<open>the statements of \<^verbatim>\<open>_execute_online_migration\<close> inside the two \<^verbatim>\<open>with\<close> blocks\<close>
  "online_body env migration =
     and_then
       (if contains (upper (sql_content migration)) ''UPDATE''
           \<or> contains (upper (sql_content migration)) ''DELETE''
        then execute_chunked_operation env (sql_content migration)
        else cursor_execute env (sql_content migration))
       (\<lambda>affected_rows.
          and_then (effect conn_commit)
            (\<lambda>_. and_then (record_migration env migration)
               (\<lambda>_. and_then (effect conn_commit) (\<lambda>_. ok affected_rows))))"

definition execute_online_migration ::
  "'d env \<Rightarrow> Migration \<Rightarrow> 'd world \<Rightarrow> MigrationResult \<times> 'd world" where
  "execute_online_migration env migration st =
     (case with_connection (online_body env migration)
             (logger INFO (Executing_Online (name migration)) st) of
        (Inr rows, st') \<Rightarrow>
          (succeeded migration rows,
           logger INFO (Online_Completed (name migration)) st')
      | (Inl e, st') \<Rightarrow>
          (failed migration e,
           logger ERROR (Online_Failed (name migration) (str_error e)) st'))"

fun table_index :: "string list \<Rightarrow> nat \<Rightarrow> int" where
  \<comment> \<open>the \<^verbatim>\<open>enumerate\<close> loop of \<^verbatim>\<open>_extract_table_name\<close>, from index \<open>i\<close> on\<close>
  "table_index [] i = - 1"
| "table_index (word # ws) i =
     (if upper word = ''TABLE'' then int i + 1 else table_index ws (Suc i))"

definition extract_table_name :: "string \<Rightarrow> string" where
  "extract_table_name sql =
     (let words = split_whitespace [] sql;
          table_idx = table_index words 0 in
      if table_idx > 0 \<and> table_idx < int (length words)
      then strip_chars CHR '';'' (words ! nat table_idx)
      else ''unknown'')"

definition shadow_swap :: "'d env \<Rightarrow> string \<Rightarrow> 'd world \<Rightarrow> (error + int) \<times> 'd world" where
  \<comment> \<open>the copy and the swap of an \<^verbatim>\<open>ALTER TABLE\<close> migration\<close>
  "shadow_swap env table_name =
     and_then (cursor_execute env
                 (''INSERT INTO shadow_'' @ table_name @ '' SELECT * FROM '' @ table_name))
       (\<lambda>_. and_then (cursor_execute env ''BEGIN'')
          (\<lambda>_. and_then (cursor_execute env (''DROP TABLE '' @ table_name))
             (\<lambda>_. and_then (cursor_execute env
                              (''ALTER TABLE shadow_'' @ table_name @ '' RENAME TO '' @ table_name))
                (\<lambda>_. cursor_execute env ''COMMIT''))))"

definition shadow_body :: "'d env \<Rightarrow> Migration \<Rightarrow> 'd world \<Rightarrow> (error + unit) \<times> 'd world" where
  "shadow_body env migration =
     and_then
       (cursor_execute env
          (replace (sql_content migration) ''CREATE TABLE'' ''CREATE TABLE shadow_''))
       (\<lambda>_. and_then
          (if contains (upper (sql_content migration)) ''ALTER TABLE''
           then shadow_swap env (extract_table_name (sql_content migration))
           else ok 0)
          (\<lambda>_. and_then (effect conn_commit)
             (\<lambda>_. and_then (record_migration env migration)
                (\<lambda>_. effect conn_commit))))"

definition execute_shadow_table_migration ::
  "'d env \<Rightarrow> Migration \<Rightarrow> 'd world \<Rightarrow> MigrationResult \<times> 'd world" where
  "execute_shadow_table_migration env migration st =
     (case with_connection (shadow_body env migration)
             (logger INFO (Executing_Shadow (name migration)) st) of
        (Inr _, st') \<Rightarrow>
          (succeeded migration 0, logger INFO (Shadow_Completed (name migration)) st')
      | (Inl e, st') \<Rightarrow>
          (failed migration e,
           logger ERROR (Shadow_Failed (name migration) (str_error e)) st'))"

definition execute_dual_write_migration ::
  "'d env \<Rightarrow> Migration \<Rightarrow> 'd world \<Rightarrow> MigrationResult \<times> 'd world" where
  "execute_dual_write_migration env migration st =
     execute_online_migration env migration
       (logger INFO (Executing_Dual_Write (name migration)) st)"

definition execute_maintenance_migration ::
  "'d env \<Rightarrow> Migration \<Rightarrow> 'd world \<Rightarrow> MigrationResult \<times> 'd world" where
  "execute_maintenance_migration env migration st =
     execute_online_migration env migration
       (redis_set ''spr:maintenance:required'' ''true''
          (logger INFO (Executing_Maintenance (name migration)) st))"

definition strategies ::
  "string \<Rightarrow> ('d env \<Rightarrow> Migration \<Rightarrow> 'd world \<Rightarrow> MigrationResult \<times> 'd world) option" where
  \<comment> \<open>the dictionary \<^verbatim>\<open>self.strategies\<close>\<close>
  "strategies strategy =
     (if strategy = ''online'' then Some execute_online_migration
      else if strategy = ''shadow_table'' then Some execute_shadow_table_migration
      else if strategy = ''dual_write'' then Some execute_dual_write_migration
      else if strategy = ''maintenance'' then Some execute_maintenance_migration
      else None)"

subsection \<open>Applying and rolling back\<close>

fun apply_loop ::
  "'d env \<Rightarrow> ('d env \<Rightarrow> Migration \<Rightarrow> 'd world \<Rightarrow> MigrationResult \<times> 'd world)
   \<Rightarrow> Migration list \<Rightarrow> MigrationResult list \<Rightarrow> 'd world
   \<Rightarrow> MigrationResult list \<times> 'd world" where
  \<comment> \<open>the \<^verbatim>\<open>for\<close> loop of \<^verbatim>\<open>apply_migrations\<close>, with its \<^verbatim>\<open>break\<close>\<close>
  "apply_loop env strategy_func [] results st = (results, st)"
| "apply_loop env strategy_func (migration # ms) results st =
     (case datetime_now env
             (logger INFO (Applying (mig_id migration) (name migration)) st) of
        (started_at, st1) \<Rightarrow>
          (case strategy_func env migration
                  (redis_hset status_key
                     [(''current_migration'', mig_id migration),
                      (''status'', ''applying''),
                      (''started_at'', started_at)] st1) of
             (result, st2) \<Rightarrow>
               if \<not> success result then
                 (case datetime_now env
                         (logger ERROR (Migration_Failed (mig_id migration)) st2) of
                    (failed_at, st3) \<Rightarrow>
                      (results @ [result],
                       redis_hset status_key
                         [(''current_migration'', mig_id migration),
                          (''status'', ''failed''),
                          (''error'', str_option (error_message result)),
                          (''failed_at'', failed_at)] st3))
               else apply_loop env strategy_func ms (results @ [result])
                      (logger INFO (Migration_Completed (mig_id migration)) st2)))"

definition apply_locked ::
  "'d env \<Rightarrow> ('d env \<Rightarrow> Migration \<Rightarrow> 'd world \<Rightarrow> MigrationResult \<times> 'd world)
   \<Rightarrow> Migration list \<Rightarrow> 'd world \<Rightarrow> (error + MigrationResult list) \<times> 'd world" where
  \<comment> \<open>the statements of \<^verbatim>\<open>apply_migrations\<close> under \<^verbatim>\<open>async with self.migration_lock(...)\<close>\<close>
  "apply_locked env strategy_func pending_migrations st =
     (case apply_loop env strategy_func pending_migrations [] (ensure_migration_table st) of
        (results, st') \<Rightarrow> (Inr results, redis_delete status_key st'))"

definition apply_migrations ::
  "'d env \<Rightarrow> string \<Rightarrow> bool \<Rightarrow> 'd world \<Rightarrow> (error + MigrationResult list) \<times> 'd world" where
  "apply_migrations env strategy dry_run st =
     (case strategies strategy of
        None \<Rightarrow> (Inl (ValueError (''Unknown migration strategy: '' @ strategy)), st)
      | Some strategy_func \<Rightarrow>
          (case get_pending_migrations env st of
             (Inl e, st1) \<Rightarrow> (Inl e, st1)
           | (Inr pending_migrations, st1) \<Rightarrow>
               if pending_migrations = [] then (Inr [], logger INFO No_Pending st1)
               else if dry_run then
                 (Inr [],
                  fold (\<lambda>migration. logger INFO (Would_Apply (mig_id migration) (name migration)))
                    pending_migrations
                    (logger INFO Dry_Run
                       (logger INFO (Found_Pending (length pending_migrations)) st1)))
               else
                 migration_lock env (''apply_migrations_'' @ strategy)
                   (apply_locked env strategy_func pending_migrations)
                   (logger INFO (Found_Pending (length pending_migrations)) st1)))"

definition rollback_body :: "'d env \<Rightarrow> string \<Rightarrow> 'd world \<Rightarrow> (error + unit) \<times> 'd world" where
  \<comment> \<open>the statements of \<^verbatim>\<open>rollback_migration\<close> inside the two \<^verbatim>\<open>with\<close> blocks\<close>
  "rollback_body env mid =
     and_then (select_rollback_sql mid)
       (\<lambda>result.
          case result of
            Some (Some stored_sql) \<Rightarrow>
              if stored_sql = [] then
                raise (Exception (''No rollback SQL available for migration '' @ mid))
              else
                and_then (cursor_execute env stored_sql)
                  (\<lambda>_. and_then (delete_migration env mid)
                     (\<lambda>_. effect conn_commit))
          | _ \<Rightarrow>
              raise (Exception (''No rollback SQL available for migration '' @ mid)))"

definition rollback_locked ::
  "'d env \<Rightarrow> string \<Rightarrow> 'd world \<Rightarrow> (error + MigrationResult) \<times> 'd world" where
  \<comment> \<open>the statements of \<^verbatim>\<open>rollback_migration\<close> under \<^verbatim>\<open>async with self.migration_lock(...)\<close>\<close>
  "rollback_locked env mid =
     and_then get_applied_migrations
       (\<lambda>applied_migrations st.
          if applied_migrations mid = None then
            raise (ValueError (''Migration '' @ mid @ '' was not applied'')) st
          else
            (case with_connection (rollback_body env mid) st of
               (Inr _, st') \<Rightarrow>
                 (Inr \<lparr>migration_id = mid, success = True, error_message = None,
                       affected_rows = 0, rollback_executed = True\<rparr>,
                  logger INFO (Rolled_Back mid) st')
             | (Inl e, st') \<Rightarrow>
                 (Inr \<lparr>migration_id = mid, success = False,
                       error_message = Some (str_error e),
                       affected_rows = 0, rollback_executed = True\<rparr>,
                  logger ERROR (Rollback_Failed mid (str_error e)) st')))"

definition rollback_migration ::
  "'d env \<Rightarrow> string \<Rightarrow> 'd world \<Rightarrow> (error + MigrationResult) \<times> 'd world" where
  "rollback_migration env mid st =
     migration_lock env (''rollback_'' @ mid) (rollback_locked env mid)
       (logger INFO (Rolling_Back mid) st)"

section \<open>Vocabulary of the statements\<close>

text \<open>
  The trace holds the log lines next to the effects on the two stores; \<open>effects\<close> keeps
  the effects. A definition is \<open>eligible\<close> for a ledger when it has no row and each of
  its dependencies has one. \<open>executes env sql d d'\<close> says that the server, given the text
  \<open>sql\<close> by \<^verbatim>\<open>cursor.execute\<close>, turns the data \<open>d\<close> into \<open>d'\<close>. \<open>strategy_names\<close> are
  the keys of \<^verbatim>\<open>self.strategies\<close>, which are also the choices of the command line.
  \<open>entered env operation st\<close> is the world in which the statements under
  \<^verbatim>\<open>migration_lock\<close> start when the lock was free in \<open>st\<close>.
\<close>

text \<open>
  The order of the database effects of one connection is read by a monitor with three
  phases: nothing executed yet (\<open>Idle\<close>), SQL executed and not yet committed
  (\<open>Executed\<close>), and SQL executed and committed with nothing executed since
  (\<open>Committed\<close>). \<open>recorded_after_commit\<close> accepts a sequence of events when each insert
  into the ledger happens in the phase \<open>Committed\<close>. \<open>new_events s s'\<close> are the events
  that \<open>s'\<close> has after those of \<open>s\<close>. The remaining predicates say what one part of a
  strategy does to the world: \<open>raw_step\<close> for the statements that only execute SQL of
  the migration, \<open>section_result\<close> for the two \<^verbatim>\<open>with\<close> blocks, \<open>strategy_result\<close> for
  the strategy as a whole.
\<close>

fun is_log :: "event \<Rightarrow> bool" where
  "is_log (Log l m) = True"
| "is_log (Db e) = False"
| "is_log (Redis e) = False"

definition effects :: "event list \<Rightarrow> event list" where
  "effects evs = filter (\<lambda>e. \<not> is_log e) evs"

definition eligible :: "(string \<rightharpoonup> ledger_row) \<Rightarrow> Migration \<Rightarrow> bool" where
  "eligible l m = (mig_id m \<notin> dom l \<and> set (dependencies m) \<subseteq> dom l)"

definition executes :: "'d env \<Rightarrow> string \<Rightarrow> 'd \<Rightarrow> 'd \<Rightarrow> bool" where
  "executes env sql d d' =
     (if sql = ''BEGIN'' \<or> sql = ''COMMIT'' then d' = d
      else (case run_sql env sql d of Inl e \<Rightarrow> False | Inr (d'', n) \<Rightarrow> d' = d''))"

definition strategy_names :: "string list" where
  "strategy_names = [''online'', ''shadow_table'', ''dual_write'', ''maintenance'']"

definition entered :: "'d env \<Rightarrow> string \<Rightarrow> 'd world \<Rightarrow> 'd world" where
  "entered env operation st =
     st\<lparr>ticks := Suc (ticks st),
        redis_strings := (redis_strings st)
          (lock_key \<mapsto> operation @ '':'' @ isoformat_now env (ticks st)),
        trace := trace st
          @ [Redis (SetNX lock_key (operation @ '':'' @ isoformat_now env (ticks st))),
             Log INFO (Lock_Acquired operation)]\<rparr>"

datatype phase = Idle | Executed | Committed

fun step :: "phase \<Rightarrow> event \<Rightarrow> phase" where
  "step p (Db Connect) = Idle"
| "step p (Db (Execute sql)) = Executed"
| "step p (Db Commit) = (if p = Executed then Committed else p)"
| "step p (Db Rollback) = Idle"
| "step p e = p"

fun writes_ledger :: "event \<Rightarrow> bool" where
  "writes_ledger (Db (Insert_Ledger i)) = True"
| "writes_ledger e = False"

fun recorded_after_commit :: "phase \<Rightarrow> event list \<Rightarrow> bool" where
  "recorded_after_commit p [] = True"
| "recorded_after_commit p (e # es) =
     ((if writes_ledger e then p = Committed else True) \<and> recorded_after_commit (step p e) es)"

definition new_events :: "'d world \<Rightarrow> 'd world \<Rightarrow> event list" where
  "new_events s s' = drop (length (trace s)) (trace s')"

fun is_execute :: "event \<Rightarrow> bool" where
  "is_execute (Db (Execute sql)) = True"
| "is_execute e = False"

definition raw_step :: "'d world \<Rightarrow> 'd world \<Rightarrow> bool" where
  "raw_step s s' =
     (ledger (tx s') = ledger (tx s)
      \<and> (ledger (db s') = ledger (db s) \<or> ledger (db s') = ledger (tx s))
      \<and> redis_strings s' = redis_strings s \<and> redis_hashes s' = redis_hashes s
      \<and> ticks s' = ticks s
      \<and> take (length (trace s)) (trace s') = trace s
      \<and> list_all is_execute (new_events s s'))"

fun is_db :: "event \<Rightarrow> bool" where
  "is_db (Db d) = True"
| "is_db e = False"

definition section_result ::
  "'d env \<Rightarrow> Migration \<Rightarrow> 'd world \<Rightarrow> bool \<Rightarrow> 'd world \<Rightarrow> bool" where
  "section_result env m s ok' s' =
     ((if ok' then (case ledger (db s) of None \<Rightarrow> False
                   | Some l \<Rightarrow> l (mig_id m) = None
                        \<and> ledger (db s') = Some (l(mig_id m \<mapsto> ledger_row_of env m)))
               \<and> Db (Insert_Ledger (mig_id m)) \<in> set (new_events s s')
       else ledger (db s') = ledger (db s))
      \<and> redis_strings s' = redis_strings s \<and> redis_hashes s' = redis_hashes s
      \<and> ticks s' = ticks s
      \<and> take (length (trace s)) (trace s') = trace s
      \<and> recorded_after_commit Idle (new_events s s'))"

definition strategy_result ::
  "'d env \<Rightarrow> Migration \<Rightarrow> 'd world \<Rightarrow> MigrationResult \<Rightarrow> 'd world \<Rightarrow> bool" where
  "strategy_result env m s r s' =
     (migration_id r = mig_id m
      \<and> (if success r
          then (case ledger (db s) of None \<Rightarrow> False
                | Some l \<Rightarrow> l (mig_id m) = None
                     \<and> ledger (db s') = Some (l(mig_id m \<mapsto> ledger_row_of env m)))
               \<and> Db (Insert_Ledger (mig_id m)) \<in> set (new_events s s')
          else ledger (db s') = ledger (db s))
      \<and> redis_strings s' lock_key = redis_strings s lock_key
      \<and> redis_hashes s' lock_key = redis_hashes s lock_key
      \<and> take (length (trace s)) (trace s') = trace s
      \<and> recorded_after_commit Idle (new_events s s'))"

section \<open>A sample environment and sample worlds\<close>

text \<open>
  The inputs at which the theorems below are instantiated. The sample server keeps the
  list of the SQL texts it has executed and rejects a text that divides by zero; the
  sample JSON parser knows four texts (an empty object, two objects with a dependency
  list, and the number 5, which \<^verbatim>\<open>dict.update\<close> refuses) and takes any other text for
  undecodable; the sample clock and checksum only have to be functions.
\<close>

definition demo_json :: "string \<Rightarrow> json_result" where
  "demo_json text =
     (if text = ''{}'' then Json_Object metadata_empty
      else if text = ''{\"dependencies\": [\"0001_a\"]}''
      then Json_Object (metadata_empty\<lparr>meta_dependencies := Some [''0001_a'']\<rparr>)
      else if text = ''{\"dependencies\": [\"0009_x\"]}''
      then Json_Object (metadata_empty\<lparr>meta_dependencies := Some [''0009_x'']\<rparr>)
      else if text = ''5'' then Update_Raises (TypeError ''int object is not iterable'')
      else JSONDecodeError)"

definition demo_env :: "string list env" where
  "demo_env = \<lparr>run_sql = (\<lambda>sql d. if contains sql ''1/0'' then Inl ''division by zero''
                                   else Inr (d @ [sql], - 1)),
               ledger_fault = (\<lambda>_. None),
               json_update = demo_json,
               sha256 = (\<lambda>s. ''sha256 of '' @ s),
               isoformat_now = (\<lambda>n. ''day '' @ replicate n CHR ''I'')\<rparr>"

definition empty_db :: "string list database" where
  "empty_db = \<lparr>ledger = Some Map.empty, data = []\<rparr>"

definition three_scripts :: "string list world" where
  "three_scripts = \<lparr>db = empty_db, tx = empty_db,
     redis_strings = Map.empty, redis_hashes = Map.empty, ticks = 0,
     migrations_dir = Some [(''0003_c.sql'', Inr ''CREATE TABLE u(id INT)''),
                            (''0001_a.sql'', Inr ''CREATE TABLE t(id INT)''),
                            (''0002_b.sql'', Inr ''SELECT 1/0'')],
     trace = []\<rparr>"

definition migration_of :: "string \<Rightarrow> string \<Rightarrow> Migration" where
  "migration_of mid sql =
     \<lparr>mig_id = mid, name = mid, version = ''1.0.0'', sql_content = sql, rollback_sql = None,
      is_breaking = False, requires_maintenance = False, estimated_duration = 0,
      dependencies = []\<rparr>"

definition migration_a :: Migration where
  "migration_a = migration_of ''0001_a'' ''CREATE TABLE t(id INT)''"

definition migration_b :: Migration where
  "migration_b = migration_of ''0002_b'' ''SELECT 1/0''"

definition migration_c :: Migration where
  "migration_c = migration_of ''0003_c'' ''CREATE TABLE u(id INT)''"

definition row_of :: "string option \<Rightarrow> ledger_row" where
  "row_of stored =
     \<lparr>row_name = ''a table'', row_version = ''1.0.0'', row_checksum = ''sha256 of it'',
      row_rollback_sql = stored, row_is_breaking = False, row_metadata = (0, [])\<rparr>"

definition lock_held :: "string list world" where
  "lock_held = \<lparr>db = empty_db, tx = empty_db,
     redis_strings = [lock_key \<mapsto> ''apply_migrations_online:day ''],
     redis_hashes = Map.empty, ticks = 0, migrations_dir = None, trace = []\<rparr>"

definition taken_over :: "string list world \<Rightarrow> (error + unit) \<times> string list world" where
  "taken_over s = (Inr (), s\<lparr>redis_strings := (redis_strings s)(lock_key \<mapsto> ''rollback_0001_a:day II'')\<rparr>)"

definition applied_world :: "(string \<times> ledger_row) list \<Rightarrow> string list world" where
  "applied_world rows = three_scripts\<lparr>db := \<lparr>ledger = Some (map_of rows), data = [''CREATE TABLE t(id INT)'']\<rparr>\<rparr>"

definition with_dependencies :: "(string \<times> (error + string)) list" where
  "with_dependencies =
     [(''0001_a.sql'', Inr ''CREATE TABLE t(id INT)''),
      (''0002_b.sql'', Inr ''-- META: {\"dependencies\": [\"0001_a\"]}\<newline>SELECT 2''),
      (''0003_c.sql'', Inr ''-- META: {\"dependencies\": [\"0009_x\"]}\<newline>SELECT 3''),
      (''0004_d.sql'', Inr ''SELECT 4'')]"

definition mixed_directory :: "(string \<times> (error + string)) list" where
  "mixed_directory =
     [(''ok.sql'', Inr ''SELECT 1''),
      (''unreadable.sql'', Inl (OSError ''Permission denied'')),
      (''five.sql'', Inr ''-- META: 5''),
      (''notes.txt'', Inr ''SELECT 9'')]"

definition undecodable_meta :: "string list world" where
  "undecodable_meta =
     three_scripts\<lparr>migrations_dir := Some [(''0001_a.sql'', Inr ''-- META: {bad\<newline>SELECT 1'')]\<rparr>"

definition delete_fails :: "string list env" where
  "delete_fails = demo_env\<lparr>ledger_fault :=
     (\<lambda>stmt. case stmt of Delete_Row i \<Rightarrow> Some ''connection lost'' | Insert_Row i r \<Rightarrow> None)\<rparr>"

section \<open>Facts used throughout\<close>

text \<open>
  The definitions that a proof unfolds together, and how \<open>effects\<close> reads a trace.
\<close>

lemmas prims = emit_def logger_def datetime_now_def key_exists_def redis_set_nx_def
  redis_set_def redis_get_def redis_delete_def redis_hset_def get_db_connection_def
  conn_commit_def conn_rollback_def

lemmas rollback_defs = executes_def with_connection_def rollback_body_def and_then_def
  select_rollback_sql_def cursor_execute_def delete_migration_def effect_def raise_def Let_def
  get_db_connection_def conn_commit_def conn_rollback_def emit_def

lemmas strategy_defs = with_connection_def online_body_def and_then_def
  execute_chunked_operation_def cursor_execute_def record_migration_def effect_def ok_def Let_def
  get_db_connection_def conn_commit_def conn_rollback_def emit_def new_events_def

lemmas run_defs = apply_migrations_def strategies_def get_pending_migrations_def load_migrations_def
  glob_sql_def endswith_def parse_migration_file_def extract_migration_metadata_def startswith_def
  strip_def is_space_def stem_def rfind_def get_or_def metadata_empty_def Let_def
  metadata_update_def override_def
  get_applied_migrations_def with_connection_def select_applied_def
  migration_lock_def lock_finally_def apply_locked_def ensure_migration_table_def
  execute_online_migration_def online_body_def execute_chunked_operation_def cursor_execute_def
  record_migration_def ledger_row_of_def calculate_migration_checksum_def succeeded_def failed_def
  rollback_migration_def rollback_locked_def rollback_body_def select_rollback_sql_def
  delete_migration_def
  and_then_def effect_def ok_def raise_def
  emit_def logger_def datetime_now_def key_exists_def redis_set_nx_def
  redis_set_def redis_get_def redis_delete_def redis_hset_def get_db_connection_def
  conn_commit_def conn_rollback_def lock_key_def status_key_def
  demo_env_def demo_json_def empty_db_def
  migration_a_def migration_b_def migration_c_def migration_of_def
  row_of_def lock_held_def taken_over_def applied_world_def with_dependencies_def mixed_directory_def
  undecodable_meta_def delete_fails_def three_scripts_def

lemma effects_append [simp]: "effects (xs @ ys) = effects xs @ effects ys"
  by (simp add: effects_def)

lemma effects_Nil [simp]: "effects [] = []"
  by (simp add: effects_def)

lemma effects_Cons [simp]:
  "effects (Log l m # evs) = effects evs"
  "effects (Db d # evs) = Db d # effects evs"
  "effects (Redis r # evs) = Redis r # effects evs"
  by (simp_all add: effects_def)

lemma effects_map_log [simp]: "effects (map (\<lambda>m. Log (l m) (g m)) ms) = []"
  by (induction ms) simp_all

lemma lock_key_not_maintenance: "lock_key \<noteq> ''spr:maintenance:required''"
  by (simp add: lock_key_def)

lemma lock_key_not_status: "lock_key \<noteq> status_key"
  by (simp add: lock_key_def status_key_def)

section \<open>The lock\<close>

lemma migration_lock_held:
  assumes "key_exists lock_key st"
  shows "migration_lock env operation body st =
           (Inl (Exception (''Migration lock is held by: '' @ str_option (redis_strings st lock_key))),
            st\<lparr>ticks := Suc (ticks st),
               trace := trace st @ [Redis (SetNX lock_key (operation @ '':'' @ isoformat_now env (ticks st))),
                                    Redis (Get lock_key)]\<rparr>)"
proof -
  from assms have "key_exists lock_key (snd (datetime_now env st))"
    by (simp add: key_exists_def datetime_now_def)
  then show ?thesis
    by (simp add: migration_lock_def lock_finally_def Let_def redis_set_nx_def redis_get_def
        datetime_now_def emit_def split: prod.splits)
qed

lemma migration_lock_free:
  assumes "\<not> key_exists lock_key st" and "body (entered env operation st) = (r, st3)"
  shows "migration_lock env operation body st =
           (r, lock_finally True (operation @ '':'' @ isoformat_now env (ticks st)) operation st3)"
proof -
  from assms(1) have "\<not> key_exists lock_key (snd (datetime_now env st))"
    by (simp add: key_exists_def datetime_now_def)
  moreover have "logger INFO (Lock_Acquired operation)
     (snd (redis_set_nx lock_key (operation @ '':'' @ isoformat_now env (ticks st))
          (snd (datetime_now env st)))) = entered env operation st"
    using assms(1)
    by (simp add: entered_def logger_def emit_def redis_set_nx_def datetime_now_def key_exists_def)
  ultimately show ?thesis using assms(2)
    by (simp add: migration_lock_def Let_def redis_set_nx_def datetime_now_def logger_def emit_def
        entered_def split: prod.splits)
qed

lemma lock_finally_own:
  assumes "redis_strings s lock_key = Some v"
  shows "lock_finally True v operation s =
           s\<lparr>redis_strings := (redis_strings s)(lock_key := None),
             redis_hashes := (redis_hashes s)(lock_key := None),
             trace := trace s @ [Redis (Get lock_key), Redis (Delete lock_key),
                                 Log INFO (Lock_Released operation)]\<rparr>"
  using assms
  by (simp add: lock_finally_def redis_get_def redis_delete_def logger_def emit_def)

lemma lock_key_entered [simp]:
  "redis_strings (entered env operation st) lock_key
     = Some (operation @ '':'' @ isoformat_now env (ticks st))"
  by (simp add: entered_def)

lemma lock_finally_db [simp]: "db (lock_finally a v operation s) = db s"
  by (simp add: lock_finally_def redis_get_def redis_delete_def logger_def emit_def
      split: prod.splits)



section \<open>Loading the migration files\<close>

text \<open>
  The loop of \<^verbatim>\<open>load_migrations\<close> only adds log lines to the world, and its result is
  the list of the files that parse, in the order of the sorted directory.
\<close>

lemma load_files_frame:
  "load_files env fs acc st = (ms, st') \<Longrightarrow>
     db st' = db st \<and> tx st' = tx st \<and> redis_strings st' = redis_strings st
     \<and> redis_hashes st' = redis_hashes st \<and> ticks st' = ticks st
     \<and> migrations_dir st' = migrations_dir st \<and> effects (trace st') = effects (trace st)"
  by (induction fs arbitrary: acc st) (auto simp: prims split: sum.splits)

lemma load_migrations_frame:
  "load_migrations env st = (ms, st') \<Longrightarrow>
     db st' = db st \<and> tx st' = tx st \<and> redis_strings st' = redis_strings st
     \<and> redis_hashes st' = redis_hashes st \<and> ticks st' = ticks st
     \<and> migrations_dir st' = migrations_dir st \<and> effects (trace st') = effects (trace st)"
  by (auto simp: load_migrations_def prims split: option.splits dest: load_files_frame)

lemma load_files_result:
  "load_files env fs acc st =
     (acc @ [m. f \<leftarrow> fs, Inr m \<leftarrow> [parse_migration_file env f]],
      st\<lparr>trace := trace st
           @ [Log ERROR (Load_Failed (fst f) (str_error e)).
                f \<leftarrow> fs, Inl e \<leftarrow> [parse_migration_file env f]]\<rparr>)"
  by (induction fs arbitrary: acc st) (simp_all add: logger_def emit_def split: sum.split)

lemma split_not_Nil: "split s sep \<noteq> []"
  by (induction s sep rule: split.induct) (auto split: list.splits)

lemma extract_lines_total:
  "\<forall>s e. json_update env s \<noteq> Update_Raises e \<Longrightarrow> \<exists>md'. extract_lines env ls md = Inr md'"
  by (induction ls arbitrary: md) (auto split: json_result.splits)

text \<open>
  Claim C9 says that a malformed unit is skipped with a logged warning. A unit whose
  \<^verbatim>\<open>-- META:\<close> directive is not JSON is not skipped: \<^verbatim>\<open>_extract_migration_metadata\<close>
  catches the \<^verbatim>\<open>JSONDecodeError\<close> and goes on, so that the unit is loaded with the
  default metadata and nothing is logged (the world after the call is the world before
  it).
\<close>

theorem load_migrations_skips_with_warning_counterexample:
  "load_migrations demo_env undecodable_meta
     = ([migration_of ''0001_a'' ''-- META: {bad\<newline>SELECT 1''], undecodable_meta)"
  by (simp add: run_defs)

text \<open>
  Claim C9, as the code has it. A missing directory yields the empty list and one
  message at level WARNING. Otherwise the files matching \<^verbatim>\<open>*.sql\<close> are parsed in sorted
  order; a unit whose parsing raises (the file cannot be read, or a directive is JSON
  that \<^verbatim>\<open>dict.update\<close> refuses) is skipped with one message at level ERROR, and the
  returned list holds exactly the units that parse, in that order, however many failing
  units come before or after them. A directive that is not JSON is ignored without a
  message, and when no directive makes \<^verbatim>\<open>dict.update\<close> raise, every readable file is
  loaded, with the stem of its name as its id.
\<close>

theorem load_migrations_skips_what_fails_to_parse:
  "(migrations_dir st = None \<longrightarrow>
      load_migrations env st = ([], logger WARNING Directory_Missing st))
   \<and> (migrations_dir st = Some entries \<longrightarrow>
        load_migrations env st =
          ([m. f \<leftarrow> glob_sql entries, Inr m \<leftarrow> [parse_migration_file env f]],
           st\<lparr>trace := trace st
                @ [Log ERROR (Load_Failed (fst f) (str_error e)).
                     f \<leftarrow> glob_sql entries, Inl e \<leftarrow> [parse_migration_file env f]]\<rparr>))
   \<and> (json_update env (strip (replace line ''-- META:'' [])) = JSONDecodeError \<longrightarrow>
        extract_lines env (line # ls) md = extract_lines env ls md)
   \<and> ((\<forall>s e. json_update env s \<noteq> Update_Raises e) \<longrightarrow>
        (\<exists>m. parse_migration_file env (fname, Inr content) = Inr m \<and> mig_id m = stem fname))"
proof -
  have a: "migrations_dir st = None \<longrightarrow>
      load_migrations env st = ([], logger WARNING Directory_Missing st)"
    by (simp add: load_migrations_def)
  have b: "migrations_dir st = Some entries \<longrightarrow>
        load_migrations env st =
          ([m. f \<leftarrow> glob_sql entries, Inr m \<leftarrow> [parse_migration_file env f]],
           st\<lparr>trace := trace st
                @ [Log ERROR (Load_Failed (fst f) (str_error e)).
                     f \<leftarrow> glob_sql entries, Inl e \<leftarrow> [parse_migration_file env f]]\<rparr>)"
    by (simp add: load_migrations_def load_files_result)
  have c: "json_update env (strip (replace line ''-- META:'' [])) = JSONDecodeError \<longrightarrow>
        extract_lines env (line # ls) md = extract_lines env ls md"
    by simp
  have d: "(\<forall>s e. json_update env s \<noteq> Update_Raises e) \<longrightarrow>
        (\<exists>m. parse_migration_file env (fname, Inr content) = Inr m \<and> mig_id m = stem fname)"
  proof
    assume "\<forall>s e. json_update env s \<noteq> Update_Raises e"
    from extract_lines_total [OF this]
    obtain md' where "extract_migration_metadata env content = Inr md'"
      unfolding extract_migration_metadata_def by blast
    then show "\<exists>m. parse_migration_file env (fname, Inr content) = Inr m \<and> mig_id m = stem fname"
      using split_not_Nil [of content "''-- ROLLBACK:''"]
      by (cases "split content ''-- ROLLBACK:''") (simp_all add: parse_migration_file_def Let_def)
  qed
  from a b c d show ?thesis by blast
qed

text \<open>
  At the sample inputs: a missing directory, a directory with a good unit between an
  unreadable one and one whose directive is a number, a directive that is not JSON, and
  a parser that never makes \<^verbatim>\<open>dict.update\<close> raise.
\<close>

theorem load_migrations_skips_what_fails_to_parse_witness:
  "load_migrations demo_env lock_held = ([], logger WARNING Directory_Missing lock_held)
   \<and> load_migrations demo_env (three_scripts\<lparr>migrations_dir := Some mixed_directory\<rparr>)
       = ([migration_of ''ok'' ''SELECT 1''],
          three_scripts\<lparr>migrations_dir := Some mixed_directory,
            trace := [Log ERROR (Load_Failed ''five.sql'' ''int object is not iterable''),
                      Log ERROR (Load_Failed ''unreadable.sql'' ''Permission denied'')]\<rparr>)
   \<and> extract_lines demo_env [''-- META: {bad'', ''SELECT 1''] metadata_empty
       = extract_lines demo_env [''SELECT 1''] metadata_empty
   \<and> (\<exists>m. parse_migration_file (demo_env\<lparr>json_update := (\<lambda>text. JSONDecodeError)\<rparr>)
               (''five.sql'', Inr ''-- META: 5'') = Inr m \<and> mig_id m = stem ''five.sql'')"
proof -
  have none: "migrations_dir lock_held = None" by (simp add: lock_held_def)
  have some: "migrations_dir (three_scripts\<lparr>migrations_dir := Some mixed_directory\<rparr>)
      = Some mixed_directory" by simp
  have bad: "json_update demo_env (strip (replace ''-- META: {bad'' ''-- META:'' [])) = JSONDecodeError"
    by (simp add: demo_env_def demo_json_def strip_def is_space_def startswith_def)
  have never: "\<forall>s e. json_update (demo_env\<lparr>json_update := (\<lambda>text. JSONDecodeError)\<rparr>) s
      \<noteq> Update_Raises e" by simp
  note t = load_migrations_skips_what_fails_to_parse
  from t [where st = lock_held and env = demo_env, THEN conjunct1, rule_format, OF none]
  have 1: "load_migrations demo_env lock_held = ([], logger WARNING Directory_Missing lock_held)" .
  from t [where st = "three_scripts\<lparr>migrations_dir := Some mixed_directory\<rparr>" and env = demo_env
      and entries = mixed_directory, THEN conjunct2, THEN conjunct1, rule_format, OF some]
  have 2: "load_migrations demo_env (three_scripts\<lparr>migrations_dir := Some mixed_directory\<rparr>)
       = ([migration_of ''ok'' ''SELECT 1''],
          three_scripts\<lparr>migrations_dir := Some mixed_directory,
            trace := [Log ERROR (Load_Failed ''five.sql'' ''int object is not iterable''),
                      Log ERROR (Load_Failed ''unreadable.sql'' ''Permission denied'')]\<rparr>)"
    by (simp add: run_defs)
  from t [where env = demo_env and line = "''-- META: {bad''" and ls = "[''SELECT 1'']"
      and md = metadata_empty, THEN conjunct2, THEN conjunct2, THEN conjunct1, rule_format, OF bad]
  have 3: "extract_lines demo_env [''-- META: {bad'', ''SELECT 1''] metadata_empty
       = extract_lines demo_env [''SELECT 1''] metadata_empty" .
  from t [where env = "demo_env\<lparr>json_update := (\<lambda>text. JSONDecodeError)\<rparr>"
      and fname = "''five.sql''" and content = "''-- META: 5''",
      THEN conjunct2, THEN conjunct2, THEN conjunct2, rule_format, OF never [rule_format]]
  have 4: "\<exists>m. parse_migration_file (demo_env\<lparr>json_update := (\<lambda>text. JSONDecodeError)\<rparr>)
               (''five.sql'', Inr ''-- META: 5'') = Inr m \<and> mig_id m = stem ''five.sql''" .
  from 1 2 3 4 show ?thesis by blast
qed

section \<open>The pending migrations\<close>

text \<open>
  \<^verbatim>\<open>get_pending_migrations\<close> reads the directory and the ledger and changes neither;
  it raises when the ledger table does not exist.
\<close>

lemma pending_loop_frame:
  "pending_loop applied ms acc st = (ps, st') \<Longrightarrow>
     db st' = db st \<and> tx st' = tx st \<and> redis_strings st' = redis_strings st
     \<and> redis_hashes st' = redis_hashes st \<and> ticks st' = ticks st
     \<and> migrations_dir st' = migrations_dir st \<and> effects (trace st') = effects (trace st)"
  by (induction ms arbitrary: acc st) (auto simp: prims Let_def split: if_splits)

lemma pending_loop_filter:
  "fst (pending_loop applied ms acc st) = acc @ filter (eligible applied) ms"
  by (induction ms arbitrary: acc st)
     (auto simp: eligible_def Let_def filter_empty_conv dom_def)

lemma get_applied_migrations_exists:
  "ledger (db st) = Some l \<Longrightarrow>
     get_applied_migrations st =
       (Inr l, st\<lparr>tx := db st, db := db st,
                  trace := trace st @ [Db Connect, Db Select_Applied, Db Commit]\<rparr>)"
  by (simp add: get_applied_migrations_def with_connection_def select_applied_def prims)

lemma get_applied_migrations_missing:
  "ledger (db st) = None \<Longrightarrow>
     get_applied_migrations st =
       (Inl undefined_table, st\<lparr>tx := db st,
                  trace := trace st @ [Db Connect, Db Select_Applied, Db Rollback]\<rparr>)"
  by (simp add: get_applied_migrations_def with_connection_def select_applied_def prims)

lemma get_pending_migrations_exists:
  assumes "ledger (db st) = Some l"
  shows "\<exists>st1. get_pending_migrations env st =
           (Inr (filter (eligible l) (fst (load_migrations env st))), st1)
         \<and> db st1 = db st \<and> redis_strings st1 = redis_strings st
         \<and> redis_hashes st1 = redis_hashes st \<and> migrations_dir st1 = migrations_dir st
         \<and> effects (trace st1) = effects (trace st) @ [Db Connect, Db Select_Applied, Db Commit]"
proof -
  obtain ms sa where load: "load_migrations env st = (ms, sa)"
    by (cases "load_migrations env st")
  note fa = load_migrations_frame [OF load]
  from fa assms have "ledger (db sa) = Some l" by simp
  note app = get_applied_migrations_exists [OF this]
  obtain ps sb where loop: "pending_loop l ms []
      (sa\<lparr>tx := db sa, db := db sa, trace := trace sa @ [Db Connect, Db Select_Applied, Db Commit]\<rparr>)
      = (ps, sb)"
    by (cases "pending_loop l ms []
      (sa\<lparr>tx := db sa, db := db sa, trace := trace sa @ [Db Connect, Db Select_Applied, Db Commit]\<rparr>)")
  note fb = pending_loop_frame [OF loop]
  have "ps = filter (eligible l) ms"
    using pending_loop_filter [of l ms "[]"] loop by (metis append_Nil fst_conv)
  with load app loop fa fb show ?thesis
    by (simp add: get_pending_migrations_def)
qed

lemma get_pending_migrations_missing:
  assumes "ledger (db st) = None"
  shows "\<exists>st1. get_pending_migrations env st = (Inl undefined_table, st1)"
proof -
  obtain ms sa where load: "load_migrations env st = (ms, sa)"
    by (cases "load_migrations env st")
  from load_migrations_frame [OF load] assms have "ledger (db sa) = None" by simp
  from get_applied_migrations_missing [OF this] load show ?thesis
    by (simp add: get_pending_migrations_def)
qed

lemma get_pending_migrations_Inr:
  assumes "get_pending_migrations env st = (Inr pending, st1)"
  shows "\<exists>l. ledger (db st) = Some l
           \<and> pending = filter (eligible l) (fst (load_migrations env st))
           \<and> db st1 = db st \<and> redis_strings st1 = redis_strings st
           \<and> redis_hashes st1 = redis_hashes st \<and> migrations_dir st1 = migrations_dir st
           \<and> effects (trace st1) = effects (trace st) @ [Db Connect, Db Select_Applied, Db Commit]"
proof (cases "ledger (db st)")
  case None
  from get_pending_migrations_missing [OF this, of env] assms show ?thesis by auto
next
  case (Some l)
  from get_pending_migrations_exists [OF this, of env] assms Some show ?thesis by auto
qed

text \<open>
  Claim C6. For every list of loaded definitions and every ledger, the pending list is
  the list of the loaded definitions filtered by \<open>eligible\<close>: a definition is pending if
  and only if its id has no row in the ledger and each of its dependencies has one, and
  the pending definitions keep the order in which they were loaded. This holds for the
  loop on any list of definitions, and for \<^verbatim>\<open>get_pending_migrations\<close> on the loaded
  files whenever the ledger table exists.
\<close>

theorem pending_is_filter_of_loaded:
  "fst (pending_loop applied definitions [] st) = filter (eligible applied) definitions
   \<and> (ledger (db st) = Some applied \<longrightarrow>
        fst (get_pending_migrations env st)
          = Inr (filter (eligible applied) (fst (load_migrations env st))))"
  using pending_loop_filter [of applied definitions "[]" st]
        get_pending_migrations_exists [of st applied env]
  by auto

text \<open>
  At a sample input: of four units on a ledger that holds the first, the one that
  depends on the first and the one without dependencies are pending, in this order; the
  one that depends on an unapplied unit is not.
\<close>

theorem pending_is_filter_of_loaded_witness:
  "fst (get_pending_migrations demo_env
          ((applied_world [(''0001_a'', row_of None)])\<lparr>migrations_dir := Some with_dependencies\<rparr>))
     = Inr [(migration_of ''0002_b'' ''-- META: {\"dependencies\": [\"0001_a\"]}\<newline>SELECT 2'')
              \<lparr>dependencies := [''0001_a'']\<rparr>,
            migration_of ''0004_d'' ''SELECT 4'']"
  using pending_is_filter_of_loaded [where applied = "map_of [(''0001_a'', row_of None)]"
          and definitions = "[]" and env = demo_env
          and st = "(applied_world [(''0001_a'', row_of None)])\<lparr>migrations_dir := Some with_dependencies\<rparr>"]
  by (simp add: applied_world_def three_scripts_def eligible_def load_migrations_def glob_sql_def
      endswith_def parse_migration_file_def extract_migration_metadata_def startswith_def
      strip_def is_space_def stem_def rfind_def get_or_def metadata_empty_def Let_def
      metadata_update_def override_def with_dependencies_def demo_env_def demo_json_def
      migration_of_def)

section \<open>Runs that take no lock\<close>

lemma strategies_known:
  "strategy \<in> set strategy_names \<Longrightarrow>
     \<exists>f. (strategies strategy
            :: ('d env \<Rightarrow> Migration \<Rightarrow> 'd world \<Rightarrow> MigrationResult \<times> 'd world) option) = Some f"
  by (auto simp: strategy_names_def strategies_def)

lemma filter_eligible_none:
  "\<forall>m\<in>set ms. mig_id m \<in> dom l \<Longrightarrow> filter (eligible l) ms = []"
  by (induction ms) (auto simp: eligible_def)

lemma fold_would_apply:
  "fold (\<lambda>migration. logger INFO (Would_Apply (mig_id migration) (name migration))) ms st
     = st\<lparr>trace := trace st
            @ map (\<lambda>m. Log INFO (Would_Apply (mig_id m) (name m))) ms\<rparr>"
  by (induction ms arbitrary: st) (simp_all add: logger_def emit_def)

lemma loaded_three_scripts:
  "fst (load_migrations demo_env three_scripts) = [migration_a, migration_b, migration_c]"
  by (simp add: run_defs)

lemma three_scripts_pending:
  "fst (get_pending_migrations demo_env three_scripts)
     = Inr [migration_a, migration_b, migration_c]"
  by (simp add: run_defs three_scripts_def)

text \<open>
  Claim C7. When every loaded definition has a row in the ledger, \<^verbatim>\<open>apply_migrations\<close>
  with one of the four strategies returns the empty result list, dry run or not; the
  committed database and the Redis store are unchanged, and the only effects of the
  call are the connection and the read of the ledger by \<^verbatim>\<open>get_applied_migrations\<close>: no
  Redis command, hence no lock, and no write to the ledger.
\<close>

theorem apply_migrations_nothing_pending:
  assumes "strategy \<in> set strategy_names"
      and "ledger (db st) = Some l"
      and "\<forall>m\<in>set (fst (load_migrations env st)). mig_id m \<in> dom l"
  shows "\<exists>st'. apply_migrations env strategy dry_run st = (Inr [], st')
           \<and> db st' = db st
           \<and> redis_strings st' = redis_strings st \<and> redis_hashes st' = redis_hashes st
           \<and> effects (trace st') = effects (trace st) @ [Db Connect, Db Select_Applied, Db Commit]"
proof -
  from strategies_known [OF assms(1)]
  obtain f :: "'a env \<Rightarrow> Migration \<Rightarrow> 'a world \<Rightarrow> MigrationResult \<times> 'a world"
    where f: "strategies strategy = Some f" by blast
  from get_pending_migrations_exists [OF assms(2), of env]
  obtain st1 where p: "get_pending_migrations env st
        = (Inr (filter (eligible l) (fst (load_migrations env st))), st1)"
    and fr: "db st1 = db st" "redis_strings st1 = redis_strings st"
      "redis_hashes st1 = redis_hashes st"
      "effects (trace st1) = effects (trace st) @ [Db Connect, Db Select_Applied, Db Commit]"
    by blast
  have "filter (eligible l) (fst (load_migrations env st)) = []"
    using assms(3) by (rule filter_eligible_none)
  with p f fr show ?thesis
    by (simp add: apply_migrations_def logger_def emit_def)
qed

text \<open>
  At a sample input: the three sample scripts on a ledger that holds all three.
\<close>

theorem apply_migrations_nothing_pending_witness:
  "fst (apply_migrations demo_env ''online'' False
          (applied_world [(''0001_a'', row_of None), (''0002_b'', row_of None), (''0003_c'', row_of None)]))
     = Inr []
   \<and> db (snd (apply_migrations demo_env ''online'' False
          (applied_world [(''0001_a'', row_of None), (''0002_b'', row_of None), (''0003_c'', row_of None)])))
     = db (applied_world [(''0001_a'', row_of None), (''0002_b'', row_of None), (''0003_c'', row_of None)])"
proof -
  define w where
    "w = applied_world [(''0001_a'', row_of None), (''0002_b'', row_of None), (''0003_c'', row_of None)]"
  have same: "load_migrations demo_env w
      = (fst (load_migrations demo_env three_scripts),
         w\<lparr>trace := trace (snd (load_migrations demo_env three_scripts))\<rparr>)"
    by (simp add: w_def applied_world_def load_migrations_def load_files_result three_scripts_def)
  have a: "''online'' \<in> set strategy_names" by (simp add: strategy_names_def)
  have b: "ledger (db w)
      = Some (map_of [(''0001_a'', row_of None), (''0002_b'', row_of None), (''0003_c'', row_of None)])"
    by (simp add: w_def applied_world_def)
  have c: "\<forall>m\<in>set (fst (load_migrations demo_env w)). mig_id m
      \<in> dom (map_of [(''0001_a'', row_of None), (''0002_b'', row_of None), (''0003_c'', row_of None)])"
    by (simp add: same loaded_three_scripts migration_a_def migration_b_def migration_c_def
        migration_of_def)
  from apply_migrations_nothing_pending [OF a b c, of False] show ?thesis
    unfolding w_def [symmetric] by auto
qed

text \<open>
  Claim C5. A dry run with one of the four strategies, on a world in which the pending
  list is \<open>pending\<close>, returns the empty result list; the committed database and the
  Redis store are unchanged, the only effects are the connection and the read of the
  ledger that compute the pending list (no Redis command, hence no lock; no SQL of a
  migration; no write to the ledger), and when the list is not empty the log of the
  call ends with the number found, the dry-run notice and one "Would apply" line for
  each pending migration, in order. The report is the log: the value returned is the
  empty list.
\<close>

theorem apply_migrations_dry_run:
  assumes "strategy \<in> set strategy_names"
      and "get_pending_migrations env st = (Inr pending, st1)"
  shows "\<exists>st'. apply_migrations env strategy True st = (Inr [], st')
           \<and> db st' = db st \<and> redis_strings st' = redis_strings st
           \<and> redis_hashes st' = redis_hashes st
           \<and> effects (trace st') = effects (trace st) @ [Db Connect, Db Select_Applied, Db Commit]
           \<and> (pending \<noteq> [] \<longrightarrow>
                trace st' = trace st1
                  @ [Log INFO (Found_Pending (length pending)), Log INFO Dry_Run]
                  @ map (\<lambda>m. Log INFO (Would_Apply (mig_id m) (name m))) pending)"
proof -
  from strategies_known [OF assms(1)]
  obtain f :: "'a env \<Rightarrow> Migration \<Rightarrow> 'a world \<Rightarrow> MigrationResult \<times> 'a world"
    where f: "strategies strategy = Some f" by blast
  from get_pending_migrations_Inr [OF assms(2)]
  have fr: "db st1 = db st" "redis_strings st1 = redis_strings st"
    "redis_hashes st1 = redis_hashes st"
    "effects (trace st1) = effects (trace st) @ [Db Connect, Db Select_Applied, Db Commit]"
    by auto
  show ?thesis
  proof (cases "pending = []")
    case True
    with f assms(2) fr show ?thesis
      by (simp add: apply_migrations_def logger_def emit_def)
  next
    case False
    with f assms(2) fr show ?thesis
      by (simp add: apply_migrations_def fold_would_apply logger_def emit_def)
  qed
qed

text \<open>
  At a sample input: a dry run on the three sample scripts and an empty ledger.
\<close>

theorem apply_migrations_dry_run_witness:
  "fst (apply_migrations demo_env ''online'' True three_scripts) = Inr []
   \<and> db (snd (apply_migrations demo_env ''online'' True three_scripts)) = db three_scripts
   \<and> redis_strings (snd (apply_migrations demo_env ''online'' True three_scripts)) = Map.empty
   \<and> trace (snd (apply_migrations demo_env ''online'' True three_scripts))
       = trace (snd (get_pending_migrations demo_env three_scripts))
         @ [Log INFO (Found_Pending 3), Log INFO Dry_Run,
            Log INFO (Would_Apply (mig_id migration_a) (name migration_a)),
            Log INFO (Would_Apply (mig_id migration_b) (name migration_b)),
            Log INFO (Would_Apply (mig_id migration_c) (name migration_c))]"
proof -
  have a: "''online'' \<in> set strategy_names" by (simp add: strategy_names_def)
  have p: "get_pending_migrations demo_env three_scripts
             = (Inr [migration_a, migration_b, migration_c],
                snd (get_pending_migrations demo_env three_scripts))"
    unfolding three_scripts_pending [symmetric] by simp
  have "redis_strings three_scripts = Map.empty" by (simp add: three_scripts_def)
  with apply_migrations_dry_run [OF a p] show ?thesis by auto
qed

section \<open>The strategies\<close>

text \<open>
  Each strategy opens a connection, executes SQL of the migration, commits, inserts the
  ledger row and commits again. The statements that execute SQL of the migration leave
  the ledger alone; what follows them is the same in all four strategies.
\<close>

lemma cursor_execute_raw:
  "case cursor_execute env sql s of (r, s') \<Rightarrow> raw_step s s' \<and> new_events s s' \<noteq> []"
  by (simp add: cursor_execute_def raw_step_def new_events_def emit_def Let_def
      split: sum.split prod.split)

lemma shadow_swap_raw:
  "case shadow_swap env t s of (r, s') \<Rightarrow> raw_step s s'"
  by (simp add: shadow_swap_def and_then_def cursor_execute_def raw_step_def new_events_def
      emit_def Let_def split: sum.split prod.split)

lemma recorded_after_executes:
  "list_all is_execute evs \<Longrightarrow> evs \<noteq> [] \<Longrightarrow>
     recorded_after_commit p (evs @ rest) = recorded_after_commit Executed rest"
proof (induction evs arbitrary: p)
  case Nil
  then show ?case by simp
next
  case (Cons e evs)
  then obtain sql where e: "e = Db (Execute sql)"
    by (cases e rule: is_execute.cases) simp_all
  show ?case
  proof (cases "evs = []")
    case True
    with e show ?thesis by simp
  next
    case False
    with Cons e show ?thesis by simp
  qed
qed

lemma and_then_assoc:
  "and_then (and_then f g) h = and_then f (\<lambda>x. and_then (g x) h)"
  by (auto simp: and_then_def fun_eq_iff split: prod.splits sum.splits)

lemma raw_step_trace:
  "raw_step s s' \<Longrightarrow> trace s' = trace s @ new_events s s'"
  unfolding raw_step_def new_events_def
  by (metis append_take_drop_id)

lemma commit_record_cases:
  assumes k: "\<And>s. k s = (Inr y, conn_commit s)"
  shows "case and_then (effect conn_commit)
                (\<lambda>_. and_then (record_migration env m) (\<lambda>_. k)) s of
     (Inl e, s') \<Rightarrow>
        ledger (db s') = ledger (tx s)
        \<and> redis_strings s' = redis_strings s \<and> redis_hashes s' = redis_hashes s
        \<and> ticks s' = ticks s
        \<and> trace s' = trace s @ [Db Commit, Db (Insert_Ledger (mig_id m))]
   | (Inr n, s') \<Rightarrow>
        (case ledger (tx s) of None \<Rightarrow> False
         | Some l \<Rightarrow> l (mig_id m) = None
             \<and> ledger (tx s') = Some (l(mig_id m \<mapsto> ledger_row_of env m)))
        \<and> db s' = tx s'
        \<and> redis_strings s' = redis_strings s \<and> redis_hashes s' = redis_hashes s
        \<and> ticks s' = ticks s
        \<and> trace s' = trace s @ [Db Commit, Db (Insert_Ledger (mig_id m)), Db Commit]"
  by (simp add: and_then_def effect_def record_migration_def k conn_commit_def emit_def Let_def
      split: option.split)

lemma recorded_section:
  fixes pre :: "'d world \<Rightarrow> (error + 'a) \<times> 'd world"
    and k :: "'a \<Rightarrow> 'd world \<Rightarrow> (error + 'b) \<times> 'd world"
  assumes pre: "\<And>s. case pre s of (r, s') \<Rightarrow> raw_step s s' \<and> new_events s s' \<noteq> []"
      and k: "\<And>x s. k x s = (Inr (y x), conn_commit s)"
  shows "case with_connection
               (and_then pre (\<lambda>x. and_then (effect conn_commit)
                  (\<lambda>_. and_then (record_migration env m) (\<lambda>_. k x)))) s of
     (Inl e, s') \<Rightarrow>
        ledger (db s') = ledger (db s)
        \<and> redis_strings s' = redis_strings s \<and> redis_hashes s' = redis_hashes s
        \<and> ticks s' = ticks s
        \<and> take (length (trace s)) (trace s') = trace s
        \<and> recorded_after_commit Idle (new_events s s')
   | (Inr n, s') \<Rightarrow>
        (case ledger (db s) of None \<Rightarrow> False
         | Some l \<Rightarrow> l (mig_id m) = None
             \<and> ledger (db s') = Some (l(mig_id m \<mapsto> ledger_row_of env m)))
        \<and> redis_strings s' = redis_strings s \<and> redis_hashes s' = redis_hashes s
        \<and> ticks s' = ticks s
        \<and> take (length (trace s)) (trace s') = trace s
        \<and> recorded_after_commit Idle (new_events s s')
        \<and> Db (Insert_Ledger (mig_id m)) \<in> set (new_events s s')"
proof -
  define s0 where "s0 = get_db_connection s"
  have s0: "tx s0 = db s" "db s0 = db s" "trace s0 = trace s @ [Db Connect]"
    "redis_strings s0 = redis_strings s" "redis_hashes s0 = redis_hashes s" "ticks s0 = ticks s"
    by (simp_all add: s0_def get_db_connection_def emit_def)
  obtain r1 s1 where p1: "pre s0 = (r1, s1)" by (cases "pre s0")
  from pre [of s0] p1 have raw: "raw_step s0 s1" and ne: "new_events s0 s1 \<noteq> []" by simp_all
  define evs where "evs = new_events s0 s1"
  from raw have ex: "list_all is_execute evs" by (simp add: raw_step_def evs_def)
  from ne have ne': "evs \<noteq> []" by (simp add: evs_def)
  from raw_step_trace [OF raw] s0 have t1: "trace s1 = trace s @ Db Connect # evs"
    by (simp add: evs_def)
  from raw s0 have f1: "ledger (tx s1) = ledger (db s)" "ledger (db s1) = ledger (db s)"
    "redis_strings s1 = redis_strings s" "redis_hashes s1 = redis_hashes s" "ticks s1 = ticks s"
    by (auto simp: raw_step_def)
  show ?thesis
  proof (cases r1)
    case (Inl e)
    with p1 have "with_connection
               (and_then pre (\<lambda>x. and_then (effect conn_commit)
                  (\<lambda>_. and_then (record_migration env m) (\<lambda>_. k x)))) s
          = (Inl e, conn_rollback s1)"
      by (simp add: with_connection_def and_then_def s0_def [symmetric])
    moreover have "recorded_after_commit Idle (Db Connect # evs @ [Db Rollback])"
      using ex ne' by (simp add: recorded_after_executes)
    ultimately show ?thesis using f1 t1
      by (simp add: conn_rollback_def emit_def new_events_def)
  next
    case (Inr x)
    define tail where "tail = and_then (effect conn_commit)
                  (\<lambda>_. and_then (record_migration env m) (\<lambda>_::unit. k x))"
    obtain r2 s2 where p2: "tail s1 = (r2, s2)" by (cases "tail s1")
    from p1 Inr have whole: "with_connection
               (and_then pre (\<lambda>x. and_then (effect conn_commit)
                  (\<lambda>_. and_then (record_migration env m) (\<lambda>_. k x)))) s
          = (case tail s1 of (Inl e, s') \<Rightarrow> (Inl e, conn_rollback s')
             | (Inr z, s') \<Rightarrow> (Inr z, conn_commit s'))"
      by (simp add: with_connection_def and_then_def [of pre] s0_def [symmetric] tail_def)
    note cr = commit_record_cases [where k = "k x" and y = "y x" and env = env and m = m and s = s1,
        OF k, folded tail_def, unfolded p2]
    show ?thesis
    proof (cases r2)
      case e: (Inl e)
      have "recorded_after_commit Idle
              (Db Connect # evs @ [Db Commit, Db (Insert_Ledger (mig_id m)), Db Rollback])"
        using ex ne' by (simp add: recorded_after_executes)
      with cr e whole p2 f1 t1 show ?thesis
        by (simp add: conn_rollback_def emit_def new_events_def)
    next
      case z: (Inr z)
      have "recorded_after_commit Idle
              (Db Connect # evs @ [Db Commit, Db (Insert_Ledger (mig_id m)), Db Commit, Db Commit])"
        using ex ne' by (simp add: recorded_after_executes)
      with cr z whole p2 f1 t1 show ?thesis
        by (simp add: conn_commit_def emit_def new_events_def split: option.splits)
    qed
  qed
qed

lemma new_events_trans:
  assumes "take (length (trace s)) (trace s1) = trace s"
      and "take (length (trace s1)) (trace s2) = trace s1"
  shows "take (length (trace s)) (trace s2) = trace s
         \<and> new_events s s2 = new_events s s1 @ new_events s1 s2"
proof -
  from assms(1) have a: "trace s1 = trace s @ new_events s s1"
    unfolding new_events_def by (metis append_take_drop_id)
  from assms(2) have b: "trace s2 = trace s1 @ new_events s1 s2"
    unfolding new_events_def by (metis append_take_drop_id)
  from a b have "trace s2 = trace s @ new_events s s1 @ new_events s1 s2" by simp
  then show ?thesis by (simp add: new_events_def [of s s2])
qed

lemma raw_step_trans:
  assumes "raw_step s s1" and "raw_step s1 s2"
  shows "raw_step s s2 \<and> new_events s s2 = new_events s s1 @ new_events s1 s2"
proof -
  from assms have t: "take (length (trace s)) (trace s1) = trace s"
    "take (length (trace s1)) (trace s2) = trace s1"
    by (simp_all add: raw_step_def)
  note n = new_events_trans [OF t]
  from assms n show ?thesis
    by (auto simp: raw_step_def)
qed

lemma raw_step_refl: "raw_step s s"
  by (simp add: raw_step_def new_events_def)

lemma online_pre_raw:
  "case (if b then execute_chunked_operation env sql else cursor_execute env sql) s of
     (r, s') \<Rightarrow> raw_step s s' \<and> new_events s s' \<noteq> []"
  using cursor_execute_raw [where env = env and sql = sql and s = s] by (simp add: execute_chunked_operation_def)

lemma shadow_pre_raw:
  "case and_then (cursor_execute env sql)
          (\<lambda>_. if b then shadow_swap env t else ok 0) s of
     (r, s') \<Rightarrow> raw_step s s' \<and> new_events s s' \<noteq> []"
proof -
  obtain r1 s1 where a: "cursor_execute env sql s = (r1, s1)"
    by (cases "cursor_execute env sql s")
  from cursor_execute_raw [where env = env and sql = sql and s = s] a
  have r1: "raw_step s s1" "new_events s s1 \<noteq> []" by simp_all
  show ?thesis
  proof (cases r1)
    case (Inl e)
    with a r1 show ?thesis by (simp add: and_then_def)
  next
    case (Inr n)
    obtain r2 s2 where b2: "(if b then shadow_swap env t else ok 0) s1 = (r2, s2)"
      by (cases "(if b then shadow_swap env t else ok 0) s1")
    have "raw_step s1 s2"
      using shadow_swap_raw [where env = env and t = t and s = s1] b2 raw_step_refl [of s1]
      by (auto simp: ok_def split: if_splits)
    from raw_step_trans [OF r1(1) this] r1(2) a Inr b2 show ?thesis
      by (simp add: and_then_def)
  qed
qed

lemma online_body_shape:
  "online_body env m =
     and_then (if contains (upper (sql_content m)) ''UPDATE''
                  \<or> contains (upper (sql_content m)) ''DELETE''
               then execute_chunked_operation env (sql_content m)
               else cursor_execute env (sql_content m))
       (\<lambda>x. and_then (effect conn_commit)
          (\<lambda>_. and_then (record_migration env m)
             (\<lambda>_. and_then (effect conn_commit) (\<lambda>_. ok x))))"
  by (simp add: online_body_def)

lemma shadow_body_shape:
  "shadow_body env m =
     and_then (and_then (cursor_execute env
                  (replace (sql_content m) ''CREATE TABLE'' ''CREATE TABLE shadow_''))
                 (\<lambda>_. if contains (upper (sql_content m)) ''ALTER TABLE''
                      then shadow_swap env (extract_table_name (sql_content m))
                      else ok 0))
       (\<lambda>x. and_then (effect conn_commit)
          (\<lambda>_. and_then (record_migration env m)
             (\<lambda>_. effect conn_commit)))"
  by (simp add: shadow_body_def and_then_assoc)

lemma online_section:
  "case with_connection (online_body env m) s of
     (r, s') \<Rightarrow> section_result env m s (\<not> isl r) s'"
  using recorded_section [where pre = "if contains (upper (sql_content m)) ''UPDATE''
                  \<or> contains (upper (sql_content m)) ''DELETE''
               then execute_chunked_operation env (sql_content m)
               else cursor_execute env (sql_content m)"
        and k = "\<lambda>x. and_then (effect conn_commit) (\<lambda>_. ok x)" and y = "\<lambda>x. x"
        and env = env and m = m and s = s, OF online_pre_raw]
  unfolding online_body_shape [symmetric]
  by (simp add: section_result_def and_then_def effect_def ok_def split: prod.splits sum.splits)

lemma shadow_section:
  "case with_connection (shadow_body env m) s of
     (r, s') \<Rightarrow> section_result env m s (\<not> isl r) s'"
  using recorded_section [where pre = "and_then (cursor_execute env
                  (replace (sql_content m) ''CREATE TABLE'' ''CREATE TABLE shadow_''))
                 (\<lambda>_. if contains (upper (sql_content m)) ''ALTER TABLE''
                      then shadow_swap env (extract_table_name (sql_content m))
                      else ok 0)"
        and k = "\<lambda>x. effect conn_commit" and y = "\<lambda>x. ()"
        and env = env and m = m and s = s, OF shadow_pre_raw]
  unfolding shadow_body_shape [symmetric]
  by (simp add: section_result_def effect_def split: prod.splits sum.splits)

lemma recorded_skip_prefix:
  "list_all (\<lambda>e. \<not> is_db e) pre \<Longrightarrow>
     recorded_after_commit p (pre @ evs) = recorded_after_commit p evs"
proof (induction pre)
  case Nil
  then show ?case by simp
next
  case (Cons e pre)
  then show ?case by (cases e) simp_all
qed

lemma recorded_skip_suffix:
  "list_all (\<lambda>e. \<not> is_db e) post \<Longrightarrow>
     recorded_after_commit p (evs @ post) = recorded_after_commit p evs"
proof (induction evs arbitrary: p)
  case Nil
  from recorded_skip_prefix [OF Nil, of p "[]"] show ?case by simp
next
  case (Cons e evs)
  then show ?case by simp
qed

lemma wrap_events:
  assumes "trace sa = trace s @ pre"
      and "take (length (trace sa)) (trace sb) = trace sa"
      and "trace s' = trace sb @ post"
  shows "take (length (trace s)) (trace s') = trace s
         \<and> new_events s s' = pre @ new_events sa sb @ post"
proof -
  from assms(2) have "trace sb = trace sa @ new_events sa sb"
    unfolding new_events_def by (metis append_take_drop_id)
  with assms have "trace s' = trace s @ pre @ new_events sa sb @ post" by simp
  then show ?thesis by (simp add: new_events_def [of s s'])
qed

lemma section_to_strategy:
  assumes sec: "section_result env m sa (success r) sb"
      and id: "migration_id r = mig_id m"
      and pre: "trace sa = trace s @ pre" "list_all (\<lambda>e. \<not> is_db e) pre"
      and post: "trace s' = trace sb @ post" "list_all (\<lambda>e. \<not> is_db e) post"
      and fr: "db sa = db s" "redis_strings sa lock_key = redis_strings s lock_key"
        "redis_hashes sa lock_key = redis_hashes s lock_key"
        "db s' = db sb" "redis_strings s' = redis_strings sb" "redis_hashes s' = redis_hashes sb"
  shows "strategy_result env m s r s'"
proof -
  from sec have t: "take (length (trace sa)) (trace sb) = trace sa"
    by (simp add: section_result_def)
  note w = wrap_events [OF pre(1) t post(1)]
  from sec have "recorded_after_commit Idle (new_events sa sb)"
    by (simp add: section_result_def)
  with w pre(2) post(2) have rec: "recorded_after_commit Idle (new_events s s')"
    by (simp add: recorded_skip_prefix recorded_skip_suffix)
  from sec w have ins: "success r \<Longrightarrow> Db (Insert_Ledger (mig_id m)) \<in> set (new_events s s')"
    by (simp add: section_result_def)
  from sec id fr w rec ins show ?thesis
    by (auto simp: section_result_def strategy_result_def split: option.splits if_splits)
qed

lemma online_strategy:
  assumes "execute_online_migration env m sa = (r, s')"
      and "trace sa = trace s @ pre" "list_all (\<lambda>e. \<not> is_db e) pre"
      and "db sa = db s" "redis_strings sa lock_key = redis_strings s lock_key"
        "redis_hashes sa lock_key = redis_hashes s lock_key"
  shows "strategy_result env m s r s'"
proof -
  define s0 where "s0 = logger INFO (Executing_Online (name m)) sa"
  obtain r1 s1 where w: "with_connection (online_body env m) s0 = (r1, s1)"
    by (cases "with_connection (online_body env m) s0")
  from online_section [of env m s0] w
  have sec: "section_result env m s0 (\<not> isl r1) s1" by simp
  have s0: "trace s0 = trace s @ pre @ [Log INFO (Executing_Online (name m))]"
    "db s0 = db s" "redis_strings s0 lock_key = redis_strings s lock_key"
    "redis_hashes s0 lock_key = redis_hashes s lock_key"
    using assms by (simp_all add: s0_def logger_def emit_def)
  have pre: "list_all (\<lambda>e. \<not> is_db e) (pre @ [Log INFO (Executing_Online (name m))])"
    using assms(3) by simp
  show ?thesis
  proof (cases r1)
    case (Inl e)
    with assms(1) w have r: "r = failed m e"
      "s' = logger ERROR (Online_Failed (name m) (str_error e)) s1"
      by (simp_all add: execute_online_migration_def s0_def [symmetric])
    show ?thesis
      by (rule section_to_strategy [where sb = s1 and sa = s0
            and post = "[Log ERROR (Online_Failed (name m) (str_error e))]", OF _ _ s0(1) pre])
         (use sec Inl r s0 in \<open>simp_all add: failed_def logger_def emit_def\<close>)
  next
    case (Inr n)
    with assms(1) w have r: "r = succeeded m n"
      "s' = logger INFO (Online_Completed (name m)) s1"
      by (simp_all add: execute_online_migration_def s0_def [symmetric])
    show ?thesis
      by (rule section_to_strategy [where sb = s1 and sa = s0
            and post = "[Log INFO (Online_Completed (name m))]", OF _ _ s0(1) pre])
         (use sec Inr r s0 in \<open>simp_all add: succeeded_def logger_def emit_def\<close>)
  qed
qed

lemma shadow_strategy:
  assumes "execute_shadow_table_migration env m s = (r, s')"
  shows "strategy_result env m s r s'"
proof -
  define s0 where "s0 = logger INFO (Executing_Shadow (name m)) s"
  obtain r1 s1 where w: "with_connection (shadow_body env m) s0 = (r1, s1)"
    by (cases "with_connection (shadow_body env m) s0")
  from shadow_section [of env m s0] w
  have sec: "section_result env m s0 (\<not> isl r1) s1" by simp
  have s0: "trace s0 = trace s @ [Log INFO (Executing_Shadow (name m))]"
    "db s0 = db s" "redis_strings s0 lock_key = redis_strings s lock_key"
    "redis_hashes s0 lock_key = redis_hashes s lock_key"
    by (simp_all add: s0_def logger_def emit_def)
  have pre: "list_all (\<lambda>e. \<not> is_db e) [Log INFO (Executing_Shadow (name m))]"
    by simp
  show ?thesis
  proof (cases r1)
    case (Inl e)
    with assms(1) w have r: "r = failed m e"
      "s' = logger ERROR (Shadow_Failed (name m) (str_error e)) s1"
      by (simp_all add: execute_shadow_table_migration_def s0_def [symmetric])
    show ?thesis
      by (rule section_to_strategy [where sb = s1 and sa = s0
            and post = "[Log ERROR (Shadow_Failed (name m) (str_error e))]", OF _ _ s0(1) pre])
         (use sec Inl r s0 in \<open>simp_all add: failed_def logger_def emit_def\<close>)
  next
    case (Inr n)
    with assms(1) w have r: "r = succeeded m 0"
      "s' = logger INFO (Shadow_Completed (name m)) s1"
      by (simp_all add: execute_shadow_table_migration_def s0_def [symmetric])
    show ?thesis
      by (rule section_to_strategy [where sb = s1 and sa = s0
            and post = "[Log INFO (Shadow_Completed (name m))]", OF _ _ s0(1) pre])
         (use sec Inr r s0 in \<open>simp_all add: succeeded_def logger_def emit_def\<close>)
  qed
qed

lemma strategy_effect:
  assumes "strategies strategy = Some f" and "f env m s = (r, s')"
  shows "strategy_result env m s r s'"
proof -
  from assms(1) consider "f = execute_online_migration" | "f = execute_shadow_table_migration"
    | "f = execute_dual_write_migration" | "f = execute_maintenance_migration"
    by (auto simp: strategies_def split: if_splits)
  then show ?thesis
  proof cases
    case 1
    with assms(2) show ?thesis
      by (intro online_strategy [where sa = s and pre = "[]"]) simp_all
  next
    case 2
    with assms(2) show ?thesis by (intro shadow_strategy) simp
  next
    case 3
    with assms(2) show ?thesis
      by (intro online_strategy [where sa = "logger INFO (Executing_Dual_Write (name m)) s"
            and pre = "[Log INFO (Executing_Dual_Write (name m))]"])
         (simp_all add: execute_dual_write_migration_def logger_def emit_def)
  next
    case 4
    with assms(2) show ?thesis
      by (intro online_strategy [where sa = "redis_set ''spr:maintenance:required'' ''true''
                (logger INFO (Executing_Maintenance (name m)) s)"
            and pre = "[Log INFO (Executing_Maintenance (name m)),
                        Redis (Set ''spr:maintenance:required'' ''true'')]"])
         (simp_all add: execute_maintenance_migration_def logger_def emit_def redis_set_def
            lock_key_not_maintenance)
  qed
qed

text \<open>
  Claim C8. For each of the four strategies and each migration, the events of the call
  are accepted by the monitor: each insert into the ledger comes after SQL of the
  migration was executed and committed on the same connection, with nothing executed in
  between. A call that reports success has made that insert and leaves the committed
  ledger with the row of the migration added, the id having had no row before; a call
  that reports failure leaves the committed ledger as it was.
\<close>

theorem ledger_write_follows_commit:
  assumes "strategies strategy = Some f" and "f env m s = (r, s')"
  shows "\<exists>evs. trace s' = trace s @ evs \<and> recorded_after_commit Idle evs
           \<and> (success r \<longrightarrow> Db (Insert_Ledger (mig_id m)) \<in> set evs
                 \<and> (\<exists>l. ledger (db s) = Some l \<and> l (mig_id m) = None
                       \<and> ledger (db s') = Some (l(mig_id m \<mapsto> ledger_row_of env m))))
           \<and> (\<not> success r \<longrightarrow> ledger (db s') = ledger (db s))"
proof -
  from strategy_effect [OF assms] have sr: "strategy_result env m s r s'" .
  then have "trace s' = trace s @ new_events s s'"
    unfolding strategy_result_def new_events_def by (metis append_take_drop_id)
  with sr show ?thesis
    by (intro exI [of _ "new_events s s'"])
       (auto simp: strategy_result_def split: option.splits if_splits)
qed

text \<open>
  At a sample input: the online strategy on the first sample migration.
\<close>

theorem ledger_write_follows_commit_witness:
  "success (fst (execute_online_migration demo_env migration_a three_scripts))
   \<and> (\<exists>evs. trace (snd (execute_online_migration demo_env migration_a three_scripts))
               = trace three_scripts @ evs
        \<and> recorded_after_commit Idle evs
        \<and> Db (Insert_Ledger (mig_id migration_a)) \<in> set evs)"
proof -
  have s: "strategies ''online''
      = Some (execute_online_migration
               :: string list env \<Rightarrow> Migration \<Rightarrow> string list world
                  \<Rightarrow> MigrationResult \<times> string list world)"
    by (simp add: strategies_def)
  have ok: "success (fst (execute_online_migration demo_env migration_a three_scripts))"
    by (simp add: run_defs)
  from ledger_write_follows_commit [OF s prod.collapse [symmetric],
      where env = demo_env and m = migration_a and s = three_scripts] ok
  show ?thesis by blast
qed

section \<open>A run of apply\_migrations\<close>

lemma apply_loop_result:
  assumes f: "\<And>m s r s'. f env m s = (r, s') \<Longrightarrow> strategy_result env m s r s'"
  shows "apply_loop env f ms acc s = (rs, s') \<Longrightarrow> ledger (db s) = Some l \<Longrightarrow>
     \<exists>new l'. rs = acc @ new \<and> length new \<le> length ms
       \<and> map migration_id new = map mig_id (take (length new) ms)
       \<and> (\<forall>j. Suc j < length new \<longrightarrow> success (new ! j))
       \<and> (length new < length ms \<longrightarrow> new \<noteq> [] \<and> \<not> success (last new))
       \<and> ledger (db s') = Some l' \<and> l \<subseteq>\<^sub>m l'
       \<and> dom l' = dom l \<union> {migration_id r | r. r \<in> set new \<and> success r}
       \<and> redis_strings s' lock_key = redis_strings s lock_key
       \<and> redis_hashes s' lock_key = redis_hashes s lock_key"
proof (induction ms arbitrary: acc s l)
  case Nil
  then show ?case by simp
next
  case (Cons m ms)
  define s1 where "s1 = redis_hset status_key
                     [(''current_migration'', mig_id m),
                      (''status'', ''applying''),
                      (''started_at'', isoformat_now env (ticks s))]
                     ((logger INFO (Applying (mig_id m) (name m)) s)\<lparr>ticks := Suc (ticks s)\<rparr>)"
  have s1: "db s1 = db s" "redis_strings s1 lock_key = redis_strings s lock_key"
    "redis_hashes s1 lock_key = redis_hashes s lock_key"
    using lock_key_not_status by (simp_all add: s1_def redis_hset_def logger_def emit_def)
  obtain r s2 where run: "f env m s1 = (r, s2)" by (cases "f env m s1")
  note sr = f [OF run]
  show ?case
  proof (cases "success r")
    case False
    from Cons.prems(1) run False
    have rs: "rs = acc @ [r]"
      and s': "s' = redis_hset status_key
                         [(''current_migration'', mig_id m),
                          (''status'', ''failed''),
                          (''error'', str_option (error_message r)),
                          (''failed_at'', isoformat_now env (ticks (logger ERROR (Migration_Failed (mig_id m)) s2)))]
                         ((logger ERROR (Migration_Failed (mig_id m)) s2)
                            \<lparr>ticks := Suc (ticks (logger ERROR (Migration_Failed (mig_id m)) s2))\<rparr>)"
      by (simp_all add: datetime_now_def logger_def emit_def s1_def)
    from sr False s1 Cons.prems(2) have "ledger (db s2) = Some l"
      "redis_strings s2 lock_key = redis_strings s lock_key"
      "redis_hashes s2 lock_key = redis_hashes s lock_key" "migration_id r = mig_id m"
      by (simp_all add: strategy_result_def)
    with s' lock_key_not_status have "ledger (db s') = Some l"
      "redis_strings s' lock_key = redis_strings s lock_key"
      "redis_hashes s' lock_key = redis_hashes s lock_key" "migration_id r = mig_id m"
      by (simp_all add: redis_hset_def logger_def emit_def)
    with rs False show ?thesis
      by (intro exI [of _ "[r]"] exI [of _ l]) simp
  next
    case True
    define l1 where "l1 = l(mig_id m \<mapsto> ledger_row_of env m)"
    from sr True s1 Cons.prems(2) have fresh: "l (mig_id m) = None"
      and led: "ledger (db s2) = Some l1"
      and fr: "redis_strings s2 lock_key = redis_strings s lock_key"
        "redis_hashes s2 lock_key = redis_hashes s lock_key"
      and rid: "migration_id r = mig_id m"
      by (simp_all add: strategy_result_def l1_def)
    define s3 where "s3 = logger INFO (Migration_Completed (mig_id m)) s2"
    from Cons.prems(1) run True
    have rec: "apply_loop env f ms (acc @ [r]) s3 = (rs, s')"
      by (simp add: datetime_now_def logger_def emit_def s1_def s3_def)
    from led fr have led3: "ledger (db s3) = Some l1"
      and fr3: "redis_strings s3 lock_key = redis_strings s lock_key"
        "redis_hashes s3 lock_key = redis_hashes s lock_key"
      by (simp_all add: s3_def logger_def emit_def)
    from Cons.IH [OF rec led3]
    obtain new l' where ih: "rs = (acc @ [r]) @ new" "length new \<le> length ms"
        "map migration_id new = map mig_id (take (length new) ms)"
        "\<forall>j. Suc j < length new \<longrightarrow> success (new ! j)"
        "length new < length ms \<longrightarrow> new \<noteq> [] \<and> \<not> success (last new)"
        "ledger (db s') = Some l'" "l1 \<subseteq>\<^sub>m l'"
        "dom l' = dom l1 \<union> {migration_id r | r. r \<in> set new \<and> success r}"
        "redis_strings s' lock_key = redis_strings s3 lock_key"
        "redis_hashes s' lock_key = redis_hashes s3 lock_key"
      by blast
    have sub: "l \<subseteq>\<^sub>m l1"
      using fresh by (auto simp: l1_def map_le_def)
    have a: "rs = acc @ (r # new)" using ih(1) by simp
    have b: "length (r # new) \<le> length (m # ms)" using ih(2) by simp
    have c: "map migration_id (r # new) = map mig_id (take (length (r # new)) (m # ms))"
      using ih(3) rid by simp
    have d: "\<forall>j. Suc j < length (r # new) \<longrightarrow> success ((r # new) ! j)"
    proof (intro allI impI)
      fix j assume j: "Suc j < length (r # new)"
      show "success ((r # new) ! j)"
      proof (cases j)
        case 0
        with True show ?thesis by simp
      next
        case (Suc k)
        with j ih(4) show ?thesis by simp
      qed
    qed
    have e: "length (r # new) < length (m # ms) \<longrightarrow> r # new \<noteq> [] \<and> \<not> success (last (r # new))"
      using ih(5) by auto
    have g: "l \<subseteq>\<^sub>m l'" using sub ih(7) by (rule map_le_trans)
    have h: "dom l' = dom l \<union> {migration_id x | x. x \<in> set (r # new) \<and> success x}"
      using ih(8) True rid by (auto simp: l1_def intro: exI [of _ r])
    from a b c d e ih(6) g h ih(9,10) fr3 show ?thesis
      by (intro exI [of _ "r # new"] exI [of _ l']) simp
  qed
qed

lemma ensure_migration_table_exists:
  "ledger (db s) = Some l \<Longrightarrow>
     ensure_migration_table s =
       s\<lparr>tx := db s, db := db s,
         trace := trace s @ [Db Connect, Db Create_Ledger, Db Commit, Db Commit]\<rparr>"
  by (cases "db s")
     (simp add: ensure_migration_table_def with_connection_def effect_def get_db_connection_def
        conn_commit_def emit_def)

lemma apply_locked_result:
  assumes f: "strategies strategy = Some f"
      and run: "apply_locked env f pending s = (r, s')"
      and led: "ledger (db s) = Some l"
  shows "\<exists>results l'. r = Inr results \<and> length results \<le> length pending
       \<and> map migration_id results = map mig_id (take (length results) pending)
       \<and> (\<forall>j. Suc j < length results \<longrightarrow> success (results ! j))
       \<and> (length results < length pending \<longrightarrow> results \<noteq> [] \<and> \<not> success (last results))
       \<and> ledger (db s') = Some l' \<and> l \<subseteq>\<^sub>m l'
       \<and> dom l' = dom l \<union> {migration_id r | r. r \<in> set results \<and> success r}
       \<and> redis_strings s' lock_key = redis_strings s lock_key"
proof -
  define s1 where "s1 = ensure_migration_table s"
  from ensure_migration_table_exists [OF led]
  have s1: "ledger (db s1) = Some l" "redis_strings s1 = redis_strings s"
    by (simp_all add: s1_def led)
  obtain rs s2 where loop: "apply_loop env f pending [] s1 = (rs, s2)"
    by (cases "apply_loop env f pending [] s1")
  from run loop have r: "r = Inr rs" and s': "s' = redis_delete status_key s2"
    by (simp_all add: apply_locked_def s1_def)
  from apply_loop_result [OF strategy_effect [OF f] loop s1(1)]
  obtain l' where "length rs \<le> length pending"
       "map migration_id rs = map mig_id (take (length rs) pending)"
       "\<forall>j. Suc j < length rs \<longrightarrow> success (rs ! j)"
       "length rs < length pending \<longrightarrow> rs \<noteq> [] \<and> \<not> success (last rs)"
       "ledger (db s2) = Some l'" "l \<subseteq>\<^sub>m l'"
       "dom l' = dom l \<union> {migration_id r | r. r \<in> set rs \<and> success r}"
       "redis_strings s2 lock_key = redis_strings s1 lock_key"
    by auto
  with r s' s1 lock_key_not_status show ?thesis
    by (simp add: redis_delete_def emit_def)
qed

lemma successes_before_failure:
  assumes len: "length rs = Suc i"
      and before: "\<forall>j<i. success (rs ! j)"
      and at: "\<not> success (rs ! i)"
      and ids: "map migration_id rs = map mig_id (take (Suc i) ps)"
  shows "{migration_id r | r. r \<in> set rs \<and> success r} = mig_id ` set (take i ps)"
proof -
  from ids len have lp: "Suc i \<le> length ps"
    by (metis length_map length_take min.absorb_iff2 min.cobounded1 min.commute)
  have nth: "migration_id (rs ! j) = mig_id (ps ! j)" if "j < Suc i" for j
  proof -
    from that len have "migration_id (rs ! j) = map migration_id rs ! j" by simp
    also have "\<dots> = map mig_id (take (Suc i) ps) ! j" by (simp add: ids)
    also from that lp have "\<dots> = mig_id (ps ! j)" by simp
    finally show ?thesis .
  qed
  show ?thesis
  proof (intro set_eqI iffI)
    fix x assume "x \<in> {migration_id r | r. r \<in> set rs \<and> success r}"
    then obtain r where r: "r \<in> set rs" "success r" "x = migration_id r" by blast
    then obtain j where j: "j < length rs" "rs ! j = r" by (auto simp: in_set_conv_nth)
    with r at have "j \<noteq> i" by auto
    with j len have ji: "j < i" by simp
    with nth [of j] j r have "x = mig_id (ps ! j)" by simp
    moreover from ji lp have "ps ! j \<in> set (take i ps)"
      by (auto simp: in_set_conv_nth intro!: exI [of _ j])
    ultimately show "x \<in> mig_id ` set (take i ps)" by blast
  next
    fix x assume "x \<in> mig_id ` set (take i ps)"
    then obtain j where j: "j < i" "j < length ps" "x = mig_id (ps ! j)"
      by (auto simp: in_set_conv_nth)
    with nth [of j] have "x = migration_id (rs ! j)" by simp
    moreover from j len have "rs ! j \<in> set rs" by simp
    moreover from j before have "success (rs ! j)" by simp
    ultimately show "x \<in> {migration_id r | r. r \<in> set rs \<and> success r}" by blast
  qed
qed

lemma apply_migrations_run:
  assumes pend: "get_pending_migrations env st = (Inr pending, st1)"
      and run: "apply_migrations env strategy False st = (Inr results, st')"
  shows "\<exists>l l'. ledger (db st) = Some l \<and> ledger (db st') = Some l' \<and> l \<subseteq>\<^sub>m l'
       \<and> pending = filter (eligible l) (fst (load_migrations env st))
       \<and> dom l' = dom l \<union> {migration_id r | r. r \<in> set results \<and> success r}
       \<and> length results \<le> length pending
       \<and> map migration_id results = map mig_id (take (length results) pending)
       \<and> (\<forall>j. Suc j < length results \<longrightarrow> success (results ! j))
       \<and> (length results < length pending \<longrightarrow> results \<noteq> [] \<and> \<not> success (last results))"
proof -
  from get_pending_migrations_Inr [OF pend]
  obtain l where l: "ledger (db st) = Some l"
    "pending = filter (eligible l) (fst (load_migrations env st))" "db st1 = db st"
    by blast
  obtain f :: "'a env \<Rightarrow> Migration \<Rightarrow> 'a world \<Rightarrow> MigrationResult \<times> 'a world"
    where f: "strategies strategy = Some f"
  proof (cases "strategies strategy
      :: ('a env \<Rightarrow> Migration \<Rightarrow> 'a world \<Rightarrow> MigrationResult \<times> 'a world) option")
    case None
    with run show ?thesis by (simp add: apply_migrations_def)
  next
    case (Some a)
    with that show ?thesis by blast
  qed
  show ?thesis
  proof (cases "pending = []")
    case True
    with run pend f l show ?thesis
      by (auto simp: apply_migrations_def logger_def emit_def)
  next
    case False
    define s2 where "s2 = logger INFO (Found_Pending (length pending)) st1"
    define op where "op = ''apply_migrations_'' @ strategy"
    from run pend f False
    have lock: "migration_lock env op (apply_locked env f pending) s2 = (Inr results, st')"
      by (simp add: apply_migrations_def s2_def op_def)
    have free: "\<not> key_exists lock_key s2"
    proof
      assume "key_exists lock_key s2"
      from migration_lock_held [OF this, of env op "apply_locked env f pending"] lock
      show False by simp
    qed
    obtain r3 s3 where body: "apply_locked env f pending (entered env op s2) = (r3, s3)"
      by (cases "apply_locked env f pending (entered env op s2)")
    from migration_lock_free [where body = "apply_locked env f pending", OF free body] lock
    have r3: "r3 = Inr results" and st': "db st' = db s3" by auto
    from l have "ledger (db (entered env op s2)) = Some l"
      by (simp add: entered_def s2_def logger_def emit_def)
    from apply_locked_result [OF f body this] r3 st' l show ?thesis
      by auto
  qed
qed

lemma three_scripts_online:
  "fst (apply_migrations demo_env ''online'' False three_scripts)
     = Inr [succeeded migration_a (- 1), failed migration_b (DatabaseError ''division by zero'')]"
  by (simp add: run_defs three_scripts_def)

text \<open>
  Claim C1. Take a run of \<^verbatim>\<open>apply_migrations\<close> that is not a dry run and returns a
  result list, on a world whose pending list is \<open>pending\<close>. If the result at position
  \<open>i\<close> is a failure, then it is the last result (no migration after \<open>i\<close> has an entry),
  every result before it is a success, and the results are those of the first \<open>i + 1\<close>
  pending migrations, in order. The ledger after the run extends the ledger before it
  (no row of the run or of an earlier run is taken back), and its keys are the keys
  before the run and the ids of the migrations before \<open>i\<close>: the migration at \<open>i\<close> and
  each migration after it has no row, unless it shares its id with one before \<open>i\<close>.
  A run that returns fewer results than there are pending migrations has a failure
  among them, so that the run stops for no other reason.
\<close>

theorem apply_migrations_stops_at_first_failure:
  assumes pend: "get_pending_migrations env st = (Inr pending, st1)"
      and run: "apply_migrations env strategy False st = (Inr results, st')"
  shows "(\<forall>i. i < length results \<and> \<not> success (results ! i) \<longrightarrow>
            length results = Suc i \<and> i < length pending
            \<and> (\<forall>j<i. success (results ! j))
            \<and> map migration_id results = map mig_id (take (Suc i) pending)
            \<and> (\<exists>l l'. ledger (db st) = Some l \<and> ledger (db st') = Some l' \<and> l \<subseteq>\<^sub>m l'
                  \<and> dom l' = dom l \<union> mig_id ` set (take i pending)
                  \<and> (\<forall>j. i \<le> j \<and> j < length pending
                          \<and> mig_id (pending ! j) \<notin> mig_id ` set (take i pending)
                        \<longrightarrow> mig_id (pending ! j) \<notin> dom l')))
         \<and> (length results < length pending \<longrightarrow> (\<exists>i<length results. \<not> success (results ! i)))"
proof -
  from apply_migrations_run [OF pend run]
  obtain l l' where l: "ledger (db st) = Some l" "ledger (db st') = Some l'" "l \<subseteq>\<^sub>m l'"
      "pending = filter (eligible l) (fst (load_migrations env st))"
      "dom l' = dom l \<union> {migration_id r | r. r \<in> set results \<and> success r}"
    and len: "length results \<le> length pending"
    and ids: "map migration_id results = map mig_id (take (length results) pending)"
    and before: "\<forall>j. Suc j < length results \<longrightarrow> success (results ! j)"
    and early: "length results < length pending \<longrightarrow> results \<noteq> [] \<and> \<not> success (last results)"
    by blast
  have first: "length results = Suc i \<and> i < length pending
            \<and> (\<forall>j<i. success (results ! j))
            \<and> map migration_id results = map mig_id (take (Suc i) pending)
            \<and> (\<exists>l l'. ledger (db st) = Some l \<and> ledger (db st') = Some l' \<and> l \<subseteq>\<^sub>m l'
                  \<and> dom l' = dom l \<union> mig_id ` set (take i pending)
                  \<and> (\<forall>j. i \<le> j \<and> j < length pending
                          \<and> mig_id (pending ! j) \<notin> mig_id ` set (take i pending)
                        \<longrightarrow> mig_id (pending ! j) \<notin> dom l'))"
    if i: "i < length results" "\<not> success (results ! i)" for i
  proof -
    from before i have n: "length results = Suc i"
      by (metis Suc_lessI)
    with len have ip: "i < length pending" by simp
    from before n have bi: "\<forall>j<i. success (results ! j)" by simp
    from ids n have idi: "map migration_id results = map mig_id (take (Suc i) pending)" by simp
    from successes_before_failure [OF n bi i(2) idi] l(5)
    have d: "dom l' = dom l \<union> mig_id ` set (take i pending)" by simp
    have "mig_id (pending ! j) \<notin> dom l'"
      if j: "i \<le> j \<and> j < length pending
             \<and> mig_id (pending ! j) \<notin> mig_id ` set (take i pending)" for j
    proof -
      from j have "pending ! j \<in> set pending" by simp
      then have "pending ! j \<in> set (filter (eligible l) (fst (load_migrations env st)))"
        using l(4) by simp
      then have "eligible l (pending ! j)" by simp
      then have "mig_id (pending ! j) \<notin> dom l" by (simp add: eligible_def)
      with d j show ?thesis by simp
    qed
    with n ip bi idi l d show ?thesis by blast
  qed
  have stop: "\<exists>i<length results. \<not> success (results ! i)" if "length results < length pending"
  proof -
    from early that have "results \<noteq> []" "\<not> success (last results)" by simp_all
    then have "length results - 1 < length results" "\<not> success (results ! (length results - 1))"
      by (simp_all add: last_conv_nth)
    then show ?thesis by blast
  qed
  from first stop show ?thesis by blast
qed

text \<open>
  At a sample input: of the three sample scripts the second divides by zero; the run
  returns a success for the first and a failure for the second, and the ledger holds
  the first alone.
\<close>

theorem apply_migrations_stops_at_first_failure_witness:
  "fst (get_pending_migrations demo_env three_scripts)
     = Inr [migration_a, migration_b, migration_c]
   \<and> fst (apply_migrations demo_env ''online'' False three_scripts)
     = Inr [succeeded migration_a (- 1), failed migration_b (DatabaseError ''division by zero'')]
   \<and> map_option dom (ledger (db (snd (apply_migrations demo_env ''online'' False three_scripts))))
     = Some {mig_id migration_a}"
proof -
  define st1 where "st1 = snd (get_pending_migrations demo_env three_scripts)"
  define st' where "st' = snd (apply_migrations demo_env ''online'' False three_scripts)"
  define results where
    "results = [succeeded migration_a (- 1), failed migration_b (DatabaseError ''division by zero'')]"
  have p: "get_pending_migrations demo_env three_scripts
             = (Inr [migration_a, migration_b, migration_c], st1)"
    unfolding st1_def three_scripts_pending [symmetric] by simp
  have r: "apply_migrations demo_env ''online'' False three_scripts = (Inr results, st')"
    unfolding st'_def results_def three_scripts_online [symmetric] by simp
  have fails: "1 < length results \<and> \<not> success (results ! 1)"
    by (simp add: results_def failed_def)
  from apply_migrations_stops_at_first_failure [OF p r, THEN conjunct1, rule_format, OF fails]
  obtain l l' where "ledger (db three_scripts) = Some l" "ledger (db st') = Some l'"
    "dom l' = dom l \<union> mig_id ` set (take 1 [migration_a, migration_b, migration_c])"
    by (elim conjE exE)
  moreover have "ledger (db three_scripts) = Some Map.empty"
    by (simp add: three_scripts_def empty_db_def)
  ultimately have "map_option dom (ledger (db st')) = Some {mig_id migration_a}"
    by auto
  with three_scripts_pending three_scripts_online show ?thesis
    by (simp add: st'_def)
qed

section \<open>Rolling back\<close>

text \<open>
  What the statements inside the two \<^verbatim>\<open>with\<close> blocks of \<^verbatim>\<open>rollback_migration\<close> do,
  then the statements under the lock, then the call as a whole.
\<close>

lemma rollback_body_cases:
  "case with_connection (rollback_body env mid) s of
     (Inl e, s') \<Rightarrow>
        db s' = db s \<and> redis_strings s' = redis_strings s \<and> redis_hashes s' = redis_hashes s
        \<and> migrations_dir s' = migrations_dir s
        \<and> (\<exists>evs. trace s' = trace s @ evs \<and> effects evs = evs \<and> Db Commit \<notin> set evs)
   | (Inr u, s') \<Rightarrow>
        redis_strings s' = redis_strings s \<and> redis_hashes s' = redis_hashes s
        \<and> migrations_dir s' = migrations_dir s
        \<and> (\<exists>l row sql. ledger (db s) = Some l \<and> l mid = Some row
              \<and> row_rollback_sql row = Some sql \<and> sql \<noteq> []
              \<and> ledger_fault env (Delete_Row mid) = None
              \<and> ledger (db s') = Some (l(mid := None))
              \<and> executes env sql (data (db s)) (data (db s'))
              \<and> trace s' = trace s @ [Db Connect, Db (Select_Rollback_Sql mid), Db (Execute sql),
                                       Db (Delete_Ledger mid), Db Commit, Db Commit])"
proof (cases "ledger (db s)")
  case None
  then show ?thesis by (simp add: rollback_defs)
next
  case (Some l)
  show ?thesis
  proof (cases "l mid")
    case None
    with Some show ?thesis by (simp add: rollback_defs)
  next
    case row: (Some row)
    show ?thesis
    proof (cases "row_rollback_sql row")
      case None
      with Some row show ?thesis by (simp add: rollback_defs)
    next
      case sql: (Some sql)
      consider "sql = []" | "sql = ''BEGIN''" | "sql = ''COMMIT''"
        | "sql \<noteq> []" "sql \<noteq> ''BEGIN''" "sql \<noteq> ''COMMIT''" by blast
      then show ?thesis
      proof cases
        case 1
        with Some row sql show ?thesis by (simp add: rollback_defs)
      next
        case 2
        with Some row sql show ?thesis
          by (simp add: rollback_defs split: option.split)
      next
        case 3
        with Some row sql show ?thesis
          by (simp add: rollback_defs split: option.split)
      next
        case 4
        with Some row sql show ?thesis
          by (simp add: rollback_defs split: option.split sum.split prod.split)
      qed
    qed
  qed
qed

lemma rollback_body_no_sql:
  assumes "ledger (db s) = Some l" and "l mid = Some row"
      and "row_rollback_sql row = None \<or> row_rollback_sql row = Some []"
  shows "with_connection (rollback_body env mid) s =
           (Inl (Exception (''No rollback SQL available for migration '' @ mid)),
            s\<lparr>tx := db s,
              trace := trace s @ [Db Connect, Db (Select_Rollback_Sql mid), Db Rollback]\<rparr>)"
  using assms by (auto simp: rollback_defs)

lemma rollback_migration_held:
  assumes "key_exists lock_key st"
  shows "rollback_migration env mid st =
           (Inl (Exception (''Migration lock is held by: '' @ str_option (redis_strings st lock_key))),
            st\<lparr>ticks := Suc (ticks st),
               trace := trace st @ [Log INFO (Rolling_Back mid),
                  Redis (SetNX lock_key (''rollback_'' @ mid @ '':'' @ isoformat_now env (ticks st))),
                  Redis (Get lock_key)]\<rparr>)"
proof -
  from assms have "key_exists lock_key (logger INFO (Rolling_Back mid) st)"
    by (simp add: key_exists_def logger_def emit_def)
  then show ?thesis
    by (simp add: rollback_migration_def migration_lock_held) (simp add: logger_def emit_def)
qed

lemma rollback_locked_not_applied:
  assumes "ledger (db s) = Some l" and "l mid = None"
  shows "rollback_locked env mid s =
           (Inl (ValueError (''Migration '' @ mid @ '' was not applied'')),
            s\<lparr>tx := db s, db := db s,
              trace := trace s @ [Db Connect, Db Select_Applied, Db Commit]\<rparr>)"
  using assms(2)
  by (simp add: rollback_locked_def and_then_def get_applied_migrations_exists [OF assms(1)]
      raise_def)

lemma rollback_locked_applied:
  assumes "ledger (db s) = Some l" and "l mid = Some row"
  shows "rollback_locked env mid s =
           (case with_connection (rollback_body env mid)
                   (s\<lparr>tx := db s, db := db s,
                      trace := trace s @ [Db Connect, Db Select_Applied, Db Commit]\<rparr>) of
              (Inr _, st') \<Rightarrow>
                 (Inr \<lparr>migration_id = mid, success = True, error_message = None,
                       affected_rows = 0, rollback_executed = True\<rparr>,
                  logger INFO (Rolled_Back mid) st')
             | (Inl e, st') \<Rightarrow>
                 (Inr \<lparr>migration_id = mid, success = False,
                       error_message = Some (str_error e),
                       affected_rows = 0, rollback_executed = True\<rparr>,
                  logger ERROR (Rollback_Failed mid (str_error e)) st'))"
  using assms(2)
  by (simp add: rollback_locked_def and_then_def get_applied_migrations_exists [OF assms(1)])

lemma rollback_locked_missing:
  assumes "ledger (db s) = None"
  shows "rollback_locked env mid s =
           (Inl undefined_table,
            s\<lparr>tx := db s, trace := trace s @ [Db Connect, Db Select_Applied, Db Rollback]\<rparr>)"
  by (simp add: rollback_locked_def and_then_def get_applied_migrations_missing [OF assms])

lemma rollback_locked_frame:
  assumes "rollback_locked env mid s = (r, s')"
  shows "redis_strings s' = redis_strings s \<and> redis_hashes s' = redis_hashes s
         \<and> migrations_dir s' = migrations_dir s
         \<and> (case r of
               Inl e \<Rightarrow> db s' = db s
             | Inr x \<Rightarrow> rollback_executed x \<and> migration_id x = mid
                        \<and> (\<exists>l. ledger (db s) = Some l \<and> l mid \<noteq> None)
                        \<and> (\<not> success x \<longrightarrow> db s' = db s))"
proof (cases "ledger (db s)")
  case None
  from rollback_locked_missing [OF this, where env = env and mid = mid] assms show ?thesis by auto
next
  case (Some l)
  show ?thesis
  proof (cases "l mid")
    case None
    from rollback_locked_not_applied [OF Some this, where env = env] assms show ?thesis by auto
  next
    case row: (Some row)
    let ?s1 = "s\<lparr>tx := db s, db := db s,
                      trace := trace s @ [Db Connect, Db Select_Applied, Db Commit]\<rparr>"
    obtain r2 s2 where w: "with_connection (rollback_body env mid) ?s1 = (r2, s2)"
      by (cases "with_connection (rollback_body env mid) ?s1")
    show ?thesis
    proof (cases r2)
      case (Inl e)
      with rollback_body_cases [where env = env and mid = mid and s = ?s1] w
      have "db s2 = db s \<and> redis_strings s2 = redis_strings s \<and> redis_hashes s2 = redis_hashes s
        \<and> migrations_dir s2 = migrations_dir s" by simp
      with rollback_locked_applied [OF Some row, where env = env] w Inl assms Some row show ?thesis
        by (auto simp: logger_def emit_def)
    next
      case (Inr u)
      with rollback_body_cases [where env = env and mid = mid and s = ?s1] w
      have "redis_strings s2 = redis_strings s \<and> redis_hashes s2 = redis_hashes s
        \<and> migrations_dir s2 = migrations_dir s" by simp
      with rollback_locked_applied [OF Some row, where env = env] w Inr assms Some row show ?thesis
        by (auto simp: logger_def emit_def)
    qed
  qed
qed

lemma rollback_locked_success:
  assumes "rollback_locked env mid s = (Inr x, s')" and "success x"
  shows "\<exists>l row sql. ledger (db s) = Some l \<and> l mid = Some row
           \<and> row_rollback_sql row = Some sql \<and> sql \<noteq> []
           \<and> ledger (db s') = Some (l(mid := None))
           \<and> executes env sql (data (db s)) (data (db s'))
           \<and> trace s' = trace s @ [Db Connect, Db Select_Applied, Db Commit,
                 Db Connect, Db (Select_Rollback_Sql mid), Db (Execute sql),
                 Db (Delete_Ledger mid), Db Commit, Db Commit, Log INFO (Rolled_Back mid)]"
proof (cases "ledger (db s)")
  case None
  from rollback_locked_missing [OF this, where env = env and mid = mid] assms show ?thesis
    by simp
next
  case (Some l)
  show ?thesis
  proof (cases "l mid")
    case None
    from rollback_locked_not_applied [OF Some this, where env = env] assms show ?thesis by simp
  next
    case row: (Some row)
    let ?s1 = "s\<lparr>tx := db s, db := db s,
                      trace := trace s @ [Db Connect, Db Select_Applied, Db Commit]\<rparr>"
    obtain r2 s2 where w: "with_connection (rollback_body env mid) ?s1 = (r2, s2)"
      by (cases "with_connection (rollback_body env mid) ?s1")
    show ?thesis
    proof (cases r2)
      case (Inl e)
      with rollback_locked_applied [OF Some row, where env = env] w assms show ?thesis
        by auto
    next
      case (Inr u)
      with rollback_body_cases [where env = env and mid = mid and s = ?s1] w
      have "\<exists>l row sql. ledger (db s) = Some l \<and> l mid = Some row
              \<and> row_rollback_sql row = Some sql \<and> sql \<noteq> []
              \<and> ledger (db s2) = Some (l(mid := None))
              \<and> executes env sql (data (db s)) (data (db s2))
              \<and> trace s2 = trace s @ [Db Connect, Db Select_Applied, Db Commit,
                    Db Connect, Db (Select_Rollback_Sql mid), Db (Execute sql),
                    Db (Delete_Ledger mid), Db Commit, Db Commit]"
        by auto
      moreover from rollback_locked_applied [OF Some row, where env = env] w Inr assms
      have "s' = logger INFO (Rolled_Back mid) s2" by simp
      ultimately show ?thesis by (simp add: logger_def emit_def)
    qed
  qed
qed

lemma rollback_migration_free:
  assumes free: "\<not> key_exists lock_key st"
      and body: "rollback_locked env mid (entered env (''rollback_'' @ mid)
                   (logger INFO (Rolling_Back mid) st)) = (r, s3)"
  shows "rollback_migration env mid st =
           (r, s3\<lparr>redis_strings := redis_strings st, redis_hashes := redis_hashes st,
                  trace := trace s3 @ [Redis (Get lock_key), Redis (Delete lock_key),
                                      Log INFO (Lock_Released (''rollback_'' @ mid))]\<rparr>)"
proof -
  define s0 where "s0 = logger INFO (Rolling_Back mid) st"
  define op where "op = ''rollback_'' @ mid"
  have free0: "\<not> key_exists lock_key s0"
    using free by (simp add: s0_def key_exists_def logger_def emit_def)
  have body0: "rollback_locked env mid (entered env op s0) = (r, s3)"
    using body by (simp add: s0_def op_def)
  from rollback_locked_frame [OF body0]
  have fr: "redis_strings s3 = redis_strings (entered env op s0)"
    "redis_hashes s3 = redis_hashes (entered env op s0)" by simp_all
  then have own: "redis_strings s3 lock_key = Some (op @ '':'' @ isoformat_now env (ticks s0))"
    by simp
  have "rollback_migration env mid st
      = (r, lock_finally True (op @ '':'' @ isoformat_now env (ticks s0)) op s3)"
    unfolding rollback_migration_def s0_def [symmetric] op_def [symmetric]
    by (rule migration_lock_free [where body = "rollback_locked env mid", OF free0 body0])
  also have "lock_finally True (op @ '':'' @ isoformat_now env (ticks s0)) op s3
      = s3\<lparr>redis_strings := (redis_strings s3)(lock_key := None),
             redis_hashes := (redis_hashes s3)(lock_key := None),
             trace := trace s3 @ [Redis (Get lock_key), Redis (Delete lock_key),
                                 Log INFO (Lock_Released op)]\<rparr>"
    by (rule lock_finally_own [OF own])
  also have "(redis_strings s3)(lock_key := None) = redis_strings st"
    using free by (simp add: fr entered_def s0_def logger_def emit_def key_exists_def fun_upd_idem)
  also have "(redis_hashes s3)(lock_key := None) = redis_hashes st"
    using free by (simp add: fr entered_def s0_def logger_def emit_def key_exists_def fun_upd_idem)
  finally show ?thesis by (simp add: op_def)
qed

lemma rollback_migration_cases:
  obtains (held) "key_exists lock_key st"
      "fst (rollback_migration env mid st)
         = Inl (Exception (''Migration lock is held by: '' @ str_option (redis_strings st lock_key)))"
  | (free) r s3 where "\<not> key_exists lock_key st"
      "rollback_locked env mid (entered env (''rollback_'' @ mid)
                   (logger INFO (Rolling_Back mid) st)) = (r, s3)"
      "rollback_migration env mid st =
           (r, s3\<lparr>redis_strings := redis_strings st, redis_hashes := redis_hashes st,
                  trace := trace s3 @ [Redis (Get lock_key), Redis (Delete lock_key),
                                      Log INFO (Lock_Released (''rollback_'' @ mid))]\<rparr>)"
proof (cases "key_exists lock_key st")
  case True
  from rollback_migration_held [OF this, of env mid] held True show ?thesis by simp
next
  case False
  obtain r s3 where b: "rollback_locked env mid (entered env (''rollback_'' @ mid)
                   (logger INFO (Rolling_Back mid) st)) = (r, s3)"
    by (cases "rollback_locked env mid (entered env (''rollback_'' @ mid)
                   (logger INFO (Rolling_Back mid) st))")
  from free [OF False b rollback_migration_free [OF False b]] show ?thesis .
qed

text \<open>
  Claim C2 says that both preconditions of a rollback are checked, and their failures
  raised, before any lock is acquired. In the code the whole body of
  \<^verbatim>\<open>rollback_migration\<close> is under \<^verbatim>\<open>async with self.migration_lock(...)\<close>. For an id that
  is not in the ledger: while the lock is held the call raises the lock error, not the
  error for an id that was not applied; while the lock is free the call takes the lock
  before it reads the ledger. For a row without rollback SQL the call raises nothing:
  it returns a result with \<open>success = False\<close> and \<open>rollback_executed = True\<close>.
\<close>

theorem rollback_checks_before_lock_counterexample:
  "fst (rollback_migration demo_env ''0009_x'' lock_held)
     = Inl (Exception ''Migration lock is held by: apply_migrations_online:day '')
   \<and> fst (rollback_migration demo_env ''0009_x'' three_scripts)
     = Inl (ValueError ''Migration 0009_x was not applied'')
   \<and> effects (trace (snd (rollback_migration demo_env ''0009_x'' three_scripts)))
     = [Redis (SetNX lock_key ''rollback_0009_x:day ''), Db Connect, Db Select_Applied, Db Commit,
        Redis (Get lock_key), Redis (Delete lock_key)]
   \<and> fst (rollback_migration demo_env ''0001_a'' (applied_world [(''0001_a'', row_of None)]))
     = Inr \<lparr>migration_id = ''0001_a'', success = False,
             error_message = Some ''No rollback SQL available for migration 0001_a'',
             affected_rows = 0, rollback_executed = True\<rparr>"
  by (simp add: run_defs str_option_def)

text \<open>
  Claim C2, as the code has it. \<^verbatim>\<open>rollback_migration\<close> takes the lock first. When the
  lock is held it raises the lock error and touches neither the database nor the
  ledger. Holding the lock, it reads the ledger: an id without a row raises the
  \<^verbatim>\<open>ValueError\<close> "was not applied"; a row whose rollback SQL is \<^verbatim>\<open>NULL\<close> or empty is
  reported by a returned result with \<open>success = False\<close>, \<open>rollback_executed = True\<close> and
  the message "No rollback SQL available", not by an exception. In both cases the
  committed database and the Redis store are as before the call, the lock having been
  released.
\<close>

theorem rollback_checks_under_the_lock:
  "(key_exists lock_key st \<longrightarrow>
      rollback_migration env mid st =
        (Inl (Exception (''Migration lock is held by: '' @ str_option (redis_strings st lock_key))),
         st\<lparr>ticks := Suc (ticks st),
            trace := trace st @ [Log INFO (Rolling_Back mid),
               Redis (SetNX lock_key (''rollback_'' @ mid @ '':'' @ isoformat_now env (ticks st))),
               Redis (Get lock_key)]\<rparr>))
   \<and> (\<not> key_exists lock_key st \<and> ledger (db st) = Some l \<and> l mid = None \<longrightarrow>
        (\<exists>st'. rollback_migration env mid st =
                  (Inl (ValueError (''Migration '' @ mid @ '' was not applied'')), st')
           \<and> db st' = db st \<and> redis_strings st' = redis_strings st
           \<and> redis_hashes st' = redis_hashes st
           \<and> effects (trace st') = effects (trace st)
                @ [Redis (SetNX lock_key (''rollback_'' @ mid @ '':'' @ isoformat_now env (ticks st))),
                   Db Connect, Db Select_Applied, Db Commit,
                   Redis (Get lock_key), Redis (Delete lock_key)]))
   \<and> (\<not> key_exists lock_key st \<and> ledger (db st) = Some l \<and> l mid = Some row
        \<and> (row_rollback_sql row = None \<or> row_rollback_sql row = Some []) \<longrightarrow>
        (\<exists>st'. rollback_migration env mid st =
                  (Inr \<lparr>migration_id = mid, success = False,
                        error_message = Some (''No rollback SQL available for migration '' @ mid),
                        affected_rows = 0, rollback_executed = True\<rparr>, st')
           \<and> db st' = db st \<and> redis_strings st' = redis_strings st
           \<and> redis_hashes st' = redis_hashes st
           \<and> effects (trace st') = effects (trace st)
                @ [Redis (SetNX lock_key (''rollback_'' @ mid @ '':'' @ isoformat_now env (ticks st))),
                   Db Connect, Db Select_Applied, Db Commit,
                   Db Connect, Db (Select_Rollback_Sql mid), Db Rollback,
                   Redis (Get lock_key), Redis (Delete lock_key)]))"
proof (intro conjI impI)
  assume "key_exists lock_key st"
  then show "rollback_migration env mid st =
        (Inl (Exception (''Migration lock is held by: '' @ str_option (redis_strings st lock_key))),
         st\<lparr>ticks := Suc (ticks st),
            trace := trace st @ [Log INFO (Rolling_Back mid),
               Redis (SetNX lock_key (''rollback_'' @ mid @ '':'' @ isoformat_now env (ticks st))),
               Redis (Get lock_key)]\<rparr>)"
    by (rule rollback_migration_held)
next
  assume a: "\<not> key_exists lock_key st \<and> ledger (db st) = Some l \<and> l mid = None"
  define s1 where "s1 = entered env (''rollback_'' @ mid) (logger INFO (Rolling_Back mid) st)"
  from a have "ledger (db s1) = Some l" by (simp add: s1_def entered_def logger_def emit_def)
  from rollback_locked_not_applied [OF this, where env = env and mid = mid] a
  have "rollback_locked env mid s1 =
           (Inl (ValueError (''Migration '' @ mid @ '' was not applied'')),
            s1\<lparr>tx := db s1, db := db s1,
              trace := trace s1 @ [Db Connect, Db Select_Applied, Db Commit]\<rparr>)" by simp
  from rollback_migration_free [OF _ this [unfolded s1_def]] a
  show "\<exists>st'. rollback_migration env mid st =
                  (Inl (ValueError (''Migration '' @ mid @ '' was not applied'')), st')
           \<and> db st' = db st \<and> redis_strings st' = redis_strings st
           \<and> redis_hashes st' = redis_hashes st
           \<and> effects (trace st') = effects (trace st)
                @ [Redis (SetNX lock_key (''rollback_'' @ mid @ '':'' @ isoformat_now env (ticks st))),
                   Db Connect, Db Select_Applied, Db Commit,
                   Redis (Get lock_key), Redis (Delete lock_key)]"
    by (simp add: entered_def logger_def emit_def)
next
  assume a: "\<not> key_exists lock_key st \<and> ledger (db st) = Some l \<and> l mid = Some row
        \<and> (row_rollback_sql row = None \<or> row_rollback_sql row = Some [])"
  define s1 where "s1 = entered env (''rollback_'' @ mid) (logger INFO (Rolling_Back mid) st)"
  define s2 where "s2 = s1\<lparr>tx := db s1, db := db s1,
                      trace := trace s1 @ [Db Connect, Db Select_Applied, Db Commit]\<rparr>"
  from a have l1: "ledger (db s1) = Some l" by (simp add: s1_def entered_def logger_def emit_def)
  then have l2: "ledger (db s2) = Some l" by (simp add: s2_def)
  from a have row: "l mid = Some row"
    and nosql: "row_rollback_sql row = None \<or> row_rollback_sql row = Some []" by simp_all
  have "rollback_locked env mid s1 =
           (Inr \<lparr>migration_id = mid, success = False,
                        error_message = Some (''No rollback SQL available for migration '' @ mid),
                        affected_rows = 0, rollback_executed = True\<rparr>,
            logger ERROR (Rollback_Failed mid (''No rollback SQL available for migration '' @ mid))
              (s2\<lparr>tx := db s2,
              trace := trace s2 @ [Db Connect, Db (Select_Rollback_Sql mid), Db Rollback]\<rparr>))"
    unfolding rollback_locked_applied [OF l1 row]
      rollback_body_no_sql [OF l2 row nosql, unfolded s2_def]
    by (simp add: s2_def)
  from rollback_migration_free [OF _ this [unfolded s1_def]] a
  show "\<exists>st'. rollback_migration env mid st =
                  (Inr \<lparr>migration_id = mid, success = False,
                        error_message = Some (''No rollback SQL available for migration '' @ mid),
                        affected_rows = 0, rollback_executed = True\<rparr>, st')
           \<and> db st' = db st \<and> redis_strings st' = redis_strings st
           \<and> redis_hashes st' = redis_hashes st
           \<and> effects (trace st') = effects (trace st)
                @ [Redis (SetNX lock_key (''rollback_'' @ mid @ '':'' @ isoformat_now env (ticks st))),
                   Db Connect, Db Select_Applied, Db Commit,
                   Db Connect, Db (Select_Rollback_Sql mid), Db Rollback,
                   Redis (Get lock_key), Redis (Delete lock_key)]"
    by (simp add: s1_def s2_def entered_def logger_def emit_def)
qed

text \<open>
  At the sample inputs: the lock held, an id without a row, a row without rollback
  SQL.
\<close>

theorem rollback_checks_under_the_lock_witness:
  "fst (rollback_migration demo_env ''0009_x'' lock_held)
     = Inl (Exception (''Migration lock is held by: '' @ str_option (redis_strings lock_held lock_key)))
   \<and> fst (rollback_migration demo_env ''0009_x'' three_scripts)
     = Inl (ValueError (''Migration '' @ ''0009_x'' @ '' was not applied''))
   \<and> db (snd (rollback_migration demo_env ''0009_x'' three_scripts)) = db three_scripts
   \<and> fst (rollback_migration demo_env ''0001_a'' (applied_world [(''0001_a'', row_of None)]))
     = Inr \<lparr>migration_id = ''0001_a'', success = False,
             error_message = Some (''No rollback SQL available for migration '' @ ''0001_a''),
             affected_rows = 0, rollback_executed = True\<rparr>
   \<and> db (snd (rollback_migration demo_env ''0001_a'' (applied_world [(''0001_a'', row_of None)])))
     = db (applied_world [(''0001_a'', row_of None)])"
proof -
  have held: "key_exists lock_key lock_held"
    by (simp add: key_exists_def lock_held_def)
  have free: "\<not> key_exists lock_key three_scripts \<and> ledger (db three_scripts) = Some Map.empty
      \<and> Map.empty ''0009_x'' = None"
    by (simp add: key_exists_def three_scripts_def empty_db_def)
  have norb: "\<not> key_exists lock_key (applied_world [(''0001_a'', row_of None)])
      \<and> ledger (db (applied_world [(''0001_a'', row_of None)])) = Some (map_of [(''0001_a'', row_of None)])
      \<and> map_of [(''0001_a'', row_of None)] ''0001_a'' = Some (row_of None)
      \<and> (row_rollback_sql (row_of None) = None \<or> row_rollback_sql (row_of None) = Some [])"
    by (simp add: key_exists_def applied_world_def three_scripts_def row_of_def)
  from rollback_checks_under_the_lock [where env = demo_env and mid = "''0009_x''"
      and st = lock_held, THEN conjunct1, rule_format, OF held]
  have 1: "fst (rollback_migration demo_env ''0009_x'' lock_held)
     = Inl (Exception (''Migration lock is held by: '' @ str_option (redis_strings lock_held lock_key)))"
    by simp
  from rollback_checks_under_the_lock [where env = demo_env and mid = "''0009_x''"
      and st = three_scripts and l = Map.empty, THEN conjunct2, THEN conjunct1, rule_format, OF free]
  have 2: "fst (rollback_migration demo_env ''0009_x'' three_scripts)
     = Inl (ValueError (''Migration '' @ ''0009_x'' @ '' was not applied''))
     \<and> db (snd (rollback_migration demo_env ''0009_x'' three_scripts)) = db three_scripts"
    by auto
  from rollback_checks_under_the_lock [where env = demo_env and mid = "''0001_a''"
      and st = "applied_world [(''0001_a'', row_of None)]" and l = "map_of [(''0001_a'', row_of None)]"
      and row = "row_of None", THEN conjunct2, THEN conjunct2, rule_format, OF norb]
  have 3: "fst (rollback_migration demo_env ''0001_a'' (applied_world [(''0001_a'', row_of None)]))
     = Inr \<lparr>migration_id = ''0001_a'', success = False,
             error_message = Some (''No rollback SQL available for migration '' @ ''0001_a''),
             affected_rows = 0, rollback_executed = True\<rparr>
   \<and> db (snd (rollback_migration demo_env ''0001_a'' (applied_world [(''0001_a'', row_of None)])))
     = db (applied_world [(''0001_a'', row_of None)])"
    by auto
  from 1 2 3 show ?thesis by blast
qed

text \<open>
  Claim C3. A rollback that returns a successful result, whatever the directory of
  migration scripts holds at that time, has \<open>rollback_executed = True\<close>; the id had a
  row in the ledger with a non-empty rollback SQL text, that text is the one text the
  call executed, the row is deleted on the same connection before its single commit,
  the data are what the server makes of that text, and the directory is not touched.
\<close>

theorem rollback_runs_stored_sql:
  assumes "rollback_migration env mid (st\<lparr>migrations_dir := source\<rparr>) = (Inr r, st')"
      and "success r"
  shows "rollback_executed r \<and> migrations_dir st' = source
         \<and> (\<exists>l row sql. ledger (db st) = Some l \<and> l mid = Some row
               \<and> row_rollback_sql row = Some sql \<and> sql \<noteq> []
               \<and> ledger (db st') = Some (l(mid := None))
               \<and> executes env sql (data (db st)) (data (db st'))
               \<and> effects (trace st') = effects (trace st)
                    @ [Redis (SetNX lock_key
                         (''rollback_'' @ mid @ '':'' @ isoformat_now env (ticks st))),
                       Db Connect, Db Select_Applied, Db Commit,
                       Db Connect, Db (Select_Rollback_Sql mid), Db (Execute sql),
                       Db (Delete_Ledger mid), Db Commit, Db Commit,
                       Redis (Get lock_key), Redis (Delete lock_key)])"
proof (cases rule: rollback_migration_cases [of "st\<lparr>migrations_dir := source\<rparr>" env mid])
  case held
  with assms show ?thesis by simp
next
  case (free r3 s3)
  define s1 where "s1 = entered env (''rollback_'' @ mid)
                          (logger INFO (Rolling_Back mid) (st\<lparr>migrations_dir := source\<rparr>))"
  have s1: "db s1 = db st" "migrations_dir s1 = source"
    "effects (trace s1) = effects (trace st)
        @ [Redis (SetNX lock_key (''rollback_'' @ mid @ '':'' @ isoformat_now env (ticks st)))]"
    by (simp_all add: s1_def entered_def logger_def emit_def)
  from free assms have r3: "r3 = Inr r" by simp
  from free(2) r3 have body: "rollback_locked env mid s1 = (Inr r, s3)"
    by (simp add: s1_def)
  from rollback_locked_frame [OF body] s1
  have "rollback_executed r" "migrations_dir s3 = source" by simp_all
  moreover
  from rollback_locked_success [OF body assms(2)]
  obtain l row sql where "ledger (db s1) = Some l" "l mid = Some row"
      "row_rollback_sql row = Some sql" "sql \<noteq> []"
      "ledger (db s3) = Some (l(mid := None))"
      "executes env sql (data (db s1)) (data (db s3))"
      "trace s3 = trace s1 @ [Db Connect, Db Select_Applied, Db Commit,
                 Db Connect, Db (Select_Rollback_Sql mid), Db (Execute sql),
                 Db (Delete_Ledger mid), Db Commit, Db Commit, Log INFO (Rolled_Back mid)]"
    by blast
  moreover from free(3) assms(1)
  have "st' = s3\<lparr>redis_strings := redis_strings (st\<lparr>migrations_dir := source\<rparr>),
                  redis_hashes := redis_hashes (st\<lparr>migrations_dir := source\<rparr>),
                  trace := trace s3 @ [Redis (Get lock_key), Redis (Delete lock_key),
                                      Log INFO (Lock_Released (''rollback_'' @ mid))]\<rparr>"
    by simp
  ultimately show ?thesis using s1 by simp
qed

lemma stored_rollback_succeeds:
  "fst (rollback_migration demo_env ''0002_b''
          ((applied_world [(''0002_b'', row_of (Some ''DROP TABLE t''))])
             \<lparr>migrations_dir := Some [(''0002_b.sql'', Inr ''changed'')]\<rparr>))
     = Inr \<lparr>migration_id = ''0002_b'', success = True, error_message = None,
             affected_rows = 0, rollback_executed = True\<rparr>"
  by (simp add: run_defs)

text \<open>
  At a sample input: the ledger stores \<^verbatim>\<open>DROP TABLE t\<close> for the id, the script on disk
  was changed after the apply; the rollback executes the stored text and removes the
  row.
\<close>

theorem rollback_runs_stored_sql_witness:
  "fst (rollback_migration demo_env ''0002_b''
          ((applied_world [(''0002_b'', row_of (Some ''DROP TABLE t''))])
             \<lparr>migrations_dir := Some [(''0002_b.sql'', Inr ''changed'')]\<rparr>))
     = Inr \<lparr>migration_id = ''0002_b'', success = True, error_message = None,
             affected_rows = 0, rollback_executed = True\<rparr>
   \<and> ledger (db (snd (rollback_migration demo_env ''0002_b''
          ((applied_world [(''0002_b'', row_of (Some ''DROP TABLE t''))])
             \<lparr>migrations_dir := Some [(''0002_b.sql'', Inr ''changed'')]\<rparr>))))
     = Some Map.empty
   \<and> Db (Execute ''DROP TABLE t'')
       \<in> set (effects (trace (snd (rollback_migration demo_env ''0002_b''
          ((applied_world [(''0002_b'', row_of (Some ''DROP TABLE t''))])
             \<lparr>migrations_dir := Some [(''0002_b.sql'', Inr ''changed'')]\<rparr>)))))"
proof -
  define w where "w = applied_world [(''0002_b'', row_of (Some ''DROP TABLE t''))]"
  define run where "run = rollback_migration demo_env ''0002_b''
      (w\<lparr>migrations_dir := Some [(''0002_b.sql'', Inr ''changed'')]\<rparr>)"
  define r where "r = \<lparr>migration_id = ''0002_b'', success = True, error_message = None,
             affected_rows = 0, rollback_executed = True\<rparr>"
  have f: "fst run = Inr r"
    using stored_rollback_succeeds by (simp add: run_def w_def r_def)
  then have eq: "rollback_migration demo_env ''0002_b''
      (w\<lparr>migrations_dir := Some [(''0002_b.sql'', Inr ''changed'')]\<rparr>) = (Inr r, snd run)"
    unfolding run_def [symmetric] by (metis prod.collapse)
  have ok: "success r" by (simp add: r_def)
  have led: "ledger (db w) = Some (map_of [(''0002_b'', row_of (Some ''DROP TABLE t''))])"
    by (simp add: w_def applied_world_def)
  from rollback_runs_stored_sql [OF eq ok]
  obtain l row sql where "ledger (db w) = Some l" "l ''0002_b'' = Some row"
    "row_rollback_sql row = Some sql" "ledger (db (snd run)) = Some (l(''0002_b'' := None))"
    "Db (Execute sql) \<in> set (effects (trace (snd run)))"
    by auto
  with led have "ledger (db (snd run)) = Some Map.empty"
    "Db (Execute ''DROP TABLE t'') \<in> set (effects (trace (snd run)))"
    by (auto simp: row_of_def)
  with f show ?thesis by (simp add: run_def w_def r_def)
qed

text \<open>
  Claim C10. A rollback that returns a failed result (the stored rollback SQL or the
  delete of the ledger row raised, or there was no rollback SQL) has
  \<open>rollback_executed = True\<close>; the committed database, the ledger row of the id
  included, and the Redis store are as before the call.
\<close>

theorem rollback_failure_leaves_state:
  assumes "rollback_migration env mid st = (Inr r, st')" and "\<not> success r"
  shows "rollback_executed r \<and> db st' = db st
         \<and> redis_strings st' = redis_strings st \<and> redis_hashes st' = redis_hashes st
         \<and> (\<exists>l. ledger (db st') = Some l \<and> l mid \<noteq> None)"
proof (cases rule: rollback_migration_cases [of st env mid])
  case held
  with assms show ?thesis by simp
next
  case (free r3 s3)
  with assms have r3: "r3 = Inr r" by simp
  from rollback_locked_frame [OF free(2)] assms(2) r3
  have "rollback_executed r" "db s3 = db st" "\<exists>l. ledger (db st) = Some l \<and> l mid \<noteq> None"
    by (simp_all add: entered_def logger_def emit_def)
  with free(3) assms(1) show ?thesis by auto
qed

lemma failing_rollback_sql:
  "fst (rollback_migration demo_env ''0002_b'' (applied_world [(''0002_b'', row_of (Some ''SELECT 1/0''))]))
     = Inr \<lparr>migration_id = ''0002_b'', success = False, error_message = Some ''division by zero'',
             affected_rows = 0, rollback_executed = True\<rparr>"
  by (simp add: run_defs)

lemma failing_delete:
  "fst (rollback_migration delete_fails ''0002_b'' (applied_world [(''0002_b'', row_of (Some ''DROP TABLE t''))]))
     = Inr \<lparr>migration_id = ''0002_b'', success = False, error_message = Some ''connection lost'',
             affected_rows = 0, rollback_executed = True\<rparr>"
  by (simp add: run_defs)

text \<open>
  At the sample inputs: a stored rollback SQL that the server rejects, and a server
  that loses the connection at the delete of the ledger row.
\<close>

theorem rollback_failure_leaves_state_witness:
  "fst (rollback_migration demo_env ''0002_b'' (applied_world [(''0002_b'', row_of (Some ''SELECT 1/0''))]))
     = Inr \<lparr>migration_id = ''0002_b'', success = False, error_message = Some ''division by zero'',
             affected_rows = 0, rollback_executed = True\<rparr>
   \<and> db (snd (rollback_migration demo_env ''0002_b''
                 (applied_world [(''0002_b'', row_of (Some ''SELECT 1/0''))])))
       = db (applied_world [(''0002_b'', row_of (Some ''SELECT 1/0''))])
   \<and> fst (rollback_migration delete_fails ''0002_b''
            (applied_world [(''0002_b'', row_of (Some ''DROP TABLE t''))]))
     = Inr \<lparr>migration_id = ''0002_b'', success = False, error_message = Some ''connection lost'',
             affected_rows = 0, rollback_executed = True\<rparr>
   \<and> db (snd (rollback_migration delete_fails ''0002_b''
                 (applied_world [(''0002_b'', row_of (Some ''DROP TABLE t''))])))
       = db (applied_world [(''0002_b'', row_of (Some ''DROP TABLE t''))])"
proof -
  define r1 where "r1 = \<lparr>migration_id = ''0002_b'', success = False,
      error_message = Some ''division by zero'', affected_rows = 0, rollback_executed = True\<rparr>"
  define r2 where "r2 = \<lparr>migration_id = ''0002_b'', success = False,
      error_message = Some ''connection lost'', affected_rows = 0, rollback_executed = True\<rparr>"
  have e1: "rollback_migration demo_env ''0002_b'' (applied_world [(''0002_b'', row_of (Some ''SELECT 1/0''))])
      = (Inr r1, snd (rollback_migration demo_env ''0002_b''
                 (applied_world [(''0002_b'', row_of (Some ''SELECT 1/0''))])))"
    unfolding r1_def failing_rollback_sql [symmetric] by simp
  have e2: "rollback_migration delete_fails ''0002_b'' (applied_world [(''0002_b'', row_of (Some ''DROP TABLE t''))])
      = (Inr r2, snd (rollback_migration delete_fails ''0002_b''
                 (applied_world [(''0002_b'', row_of (Some ''DROP TABLE t''))])))"
    unfolding r2_def failing_delete [symmetric] by simp
  have n1: "\<not> success r1" by (simp add: r1_def)
  have n2: "\<not> success r2" by (simp add: r2_def)
  from rollback_failure_leaves_state [OF e1 n1] rollback_failure_leaves_state [OF e2 n2]
    failing_rollback_sql failing_delete
  show ?thesis by simp
qed

end
